theory Spec2Isabelle
  imports Main "HOL-Library.Char_ord" "HOL-Library.List_Lexorder" "HOL-Library.Multiset"
begin

section \<open>package-policy: a shallow embedding\<close>

text \<open>
  The repository holds two revisions of three of its modules.  The revision under
  \<^verbatim>\<open>src/lib\<close> (\<^verbatim>\<open>index.ts\<close>, \<^verbatim>\<open>package-downloads.ts\<close>) is embedded under the source's
  names.  The other revision (\<^verbatim>\<open>src/unnamed/part_002\<close>, a second \<^verbatim>\<open>index.ts\<close>, and
  \<^verbatim>\<open>src/unnamed/part_003\<close>, a second \<^verbatim>\<open>package-downloads.ts\<close>) is embedded wherever it
  differs, under the same names with the suffix \<open>_p2\<close>.

  Conventions of the embedding.
  \<^item> JavaScript strings are \<open>string\<close>; \<open><\<close> on strings is the lexicographic order on
    code units (\<open>Char_ord\<close>, \<open>List_Lexorder\<close>).
  \<^item> Numbers are integers.  Their decimal text is defined for the safe integers; for any
    other number it is what the runtime prints, a field of \<open>env\<close>.
  \<^item> A parsed JSON object is the association list of its own properties, with distinct
    keys, in property order.  A lookup \<^verbatim>\<open>o[k]\<close> with a computed key also sees what \<open>o\<close>
    inherits: the members of \<^verbatim>\<open>Object.prototype\<close>, listed in \<open>objectPrototype\<close>, and for a
    value that is not a plain object the methods of its own prototype, a field of \<open>env\<close>.
  \<^item> A \<^verbatim>\<open>throw\<close> is \<open>Inl\<close> of an \<open>error\<close>; \<^verbatim>\<open>process.exit\<close> and a normal return are
    values of \<open>outcome\<close>.
  \<^item> The file system and the log of requests, writes and prompts are a \<open>world\<close> record
    that every effectful function takes and returns.  The responses of the network, the
    clock, the \<^verbatim>\<open>semver\<close> library, the writes that fail, the line entered at the prompt and
    the order in which suspended callbacks are resumed are fields of an \<open>env\<close> record.
  \<^item> \<^verbatim>\<open>program.getOptionValue('cache')\<close> is \<^verbatim>\<open>true\<close> in every run: \<^verbatim>\<open>main\<close> declares
    \<^verbatim>\<open>--cache\<close> with the default \<^verbatim>\<open>true\<close> and declares no option that negates it.  The tests
    of this value are therefore left out.
  \<^item> The callbacks that \<^verbatim>\<open>Promise.all\<close> runs over a batch are interleaved at their
    suspensions: each runs from one \<^verbatim>\<open>await\<close> of a file or network operation to the next
    without interruption, and \<open>schedule\<close> picks the callback that is resumed next.
\<close>

subsection \<open>Values\<close>

datatype error = Error string | TypeError | SyntaxError | NetworkError | IOError

datatype 'a stored = Absent | Corrupt | Content 'a

datatype json =
    JUndefined
  | JNull
  | JBool bool
  | JNum int
  | JStr string
  | JArr "json list"
  | JObj "(string \<times> json) list"

text \<open>
  What an HTTP request yields: no response at all, or a response with its status, its
  status text and its body parsed as JSON (\<open>None\<close> when the body is not JSON).
\<close>

datatype response = NoResponse | Response nat string "json option"

datatype event =
    GET string
  | WriteRegistryCache string
  | WriteDownloads
  | WriteApproval
  | Prompt

text \<open>
  What a run reads from outside the repository's code:
  \<^item> \<open>opt_ci\<close>: the command-line option \<^verbatim>\<open>ci\<close>;
  \<^item> \<open>dir\<close>: the directory of the repository;
  \<^item> \<open>satisfies\<close>: \<^verbatim>\<open>semver.satisfies(version, range, {includePrerelease: true})\<close>;
  \<^item> \<open>http\<close>: the response to a request of a URL;
  \<^item> \<open>now\<close>: \<^verbatim>\<open>Date.now()\<close>; \<open>getTime\<close>: \<^verbatim>\<open>new Date(time).getTime()\<close>, \<open>None\<close> for \<^verbatim>\<open>NaN\<close>;
  \<^item> \<open>writable\<close>: whether a write succeeds, named by the event it would log;
  \<^item> \<open>line\<close>: what the prompt yields, the line entered or the error \<^verbatim>\<open>read\<close> rejects with
    (a prompt that is cancelled);
  \<^item> \<open>numberToString\<close>: \<^verbatim>\<open>String(n)\<close> for a number outside the safe integers;
  \<^item> \<open>methodOf\<close>: whether a value that is not a plain object (an array, a string, a number,
    a boolean) inherits a member of the given name from its own prototype;
  \<^item> \<open>schedule\<close>: for each resumption in turn, which of the suspended callbacks of the
    batch is resumed (counted among the suspended ones, modulo their number; the first one
    once the list is used up).
\<close>

record env =
  opt_ci :: bool
  dir :: string
  satisfies :: "string \<Rightarrow> string \<Rightarrow> bool"
  http :: "string \<Rightarrow> response"
  now :: int
  getTime :: "json \<Rightarrow> int option"
  writable :: "event \<Rightarrow> bool"
  line :: "error + string"
  numberToString :: "int \<Rightarrow> string"
  methodOf :: "json \<Rightarrow> string \<Rightarrow> bool"
  schedule :: "nat list"

text \<open>JavaScript truthiness (\<^verbatim>\<open>!x\<close>, \<^verbatim>\<open>x || y\<close>, \<^verbatim>\<open>if (x)\<close>).\<close>

fun truthy :: "json \<Rightarrow> bool" where
  "truthy JUndefined = False"
| "truthy JNull = False"
| "truthy (JBool b) = b"
| "truthy (JNum n) = (n \<noteq> 0)"
| "truthy (JStr s) = (s \<noteq> [])"
| "truthy (JArr xs) = True"
| "truthy (JObj kvs) = True"

text \<open>Sequencing of steps that may throw.\<close>

fun andThen :: "error + 'a \<Rightarrow> ('a \<Rightarrow> error + 'b) \<Rightarrow> error + 'b" where
  "andThen (Inl e) f = Inl e"
| "andThen (Inr x) f = f x"

subsubsection \<open>Numbers as text\<close>

definition digit :: "nat \<Rightarrow> char" where
  "digit d = char_of (48 + d)"

function showNat :: "nat \<Rightarrow> string" where
  "showNat n = (if n < 10 then [digit n] else showNat (n div 10) @ [digit (n mod 10)])"
  by pat_completeness auto
termination
  by (relation "measure id") auto

declare showNat.simps [simp del]

definition safeInteger :: "int \<Rightarrow> bool" where
  "safeInteger n = (- 9007199254740991 \<le> n \<and> n \<le> 9007199254740991)"

text \<open>\<^verbatim>\<open>String(n)\<close>, also the text of \<open>n\<close> in a template literal and under \<^verbatim>\<open>+\<close>.\<close>

definition toString :: "env \<Rightarrow> int \<Rightarrow> string" where
  "toString E n =
     (if safeInteger n
      then (if n < 0 then ''-'' @ showNat (nat (- n)) else showNat (nat n))
      else numberToString E n)"

text \<open>
  The conversion of a value to a string in a template literal: an array joins the texts of
  its elements, an object is \<^verbatim>\<open>[object Object]\<close>.
\<close>

fun joinWith :: "string \<Rightarrow> string list \<Rightarrow> string" where
  "joinWith sep [] = []"
| "joinWith sep [x] = x"
| "joinWith sep (x # y # ys) = x @ sep @ joinWith sep (y # ys)"

fun render :: "env \<Rightarrow> json \<Rightarrow> string" where
  "render E JUndefined = ''undefined''"
| "render E JNull = ''null''"
| "render E (JBool b) = (if b then ''true'' else ''false'')"
| "render E (JNum n) = toString E n"
| "render E (JStr s) = s"
| "render E (JArr xs) =
     joinWith '','' (map (\<lambda>x. if x = JUndefined \<or> x = JNull then [] else render E x) xs)"
| "render E (JObj kvs) = ''[object Object]''"

subsubsection \<open>Properties of values\<close>

text \<open>
  A property read with a fixed name, \<^verbatim>\<open>o.name\<close>, for the names the code reads
  (\<^verbatim>\<open>_version\<close>, \<^verbatim>\<open>versions\<close>, \<^verbatim>\<open>time\<close>, \<^verbatim>\<open>license\<close>, \<^verbatim>\<open>scripts\<close>, \<^verbatim>\<open>downloads\<close>), none of
  which is a member of a prototype: a \<^verbatim>\<open>TypeError\<close> on \<^verbatim>\<open>null\<close> and \<^verbatim>\<open>undefined\<close>, the own
  property of an object, \<^verbatim>\<open>undefined\<close> otherwise.
\<close>

fun field :: "json \<Rightarrow> string \<Rightarrow> error + json" where
  "field JUndefined k = Inl TypeError"
| "field JNull k = Inl TypeError"
| "field (JObj kvs) k = Inr (case map_of kvs k of None \<Rightarrow> JUndefined | Some v \<Rightarrow> v)"
| "field v k = Inr JUndefined"

text \<open>The names of the members of \<^verbatim>\<open>Object.prototype\<close>; each is a function or an object.\<close>

definition objectPrototype :: "string list" where
  "objectPrototype =
     [''constructor'', ''__defineGetter__'', ''__defineSetter__'', ''hasOwnProperty'',
      ''__lookupGetter__'', ''__lookupSetter__'', ''isPrototypeOf'', ''propertyIsEnumerable'',
      ''toString'', ''valueOf'', ''__proto__'', ''toLocaleString'']"

text \<open>
  What a lookup \<^verbatim>\<open>o[k]\<close> with a computed key finds: an own property with its value, an
  inherited member (a function, or the prototype itself for \<^verbatim>\<open>__proto__\<close>: truthy, neither
  a string nor a number, without any of the fields the code reads), or nothing.
\<close>

datatype looked = Own json | Inherited | Missing

text \<open>The element a key denotes in an array or string of length \<open>n\<close>.\<close>

definition arrayIndex :: "string \<Rightarrow> nat \<Rightarrow> nat option" where
  "arrayIndex k n = find (\<lambda>i. showNat i = k) [0 ..< n]"

definition inherits :: "env \<Rightarrow> json \<Rightarrow> string \<Rightarrow> looked" where
  "inherits E v k = (if k \<in> set objectPrototype \<or> methodOf E v k then Inherited else Missing)"

fun lookup :: "env \<Rightarrow> json \<Rightarrow> string \<Rightarrow> error + looked" where
  "lookup E JUndefined k = Inl TypeError"
| "lookup E JNull k = Inl TypeError"
| "lookup E (JObj kvs) k =
     Inr (case map_of kvs k of
            Some v \<Rightarrow> Own v
          | None \<Rightarrow> if k \<in> set objectPrototype then Inherited else Missing)"
| "lookup E (JArr xs) k =
     Inr (case arrayIndex k (length xs) of
            Some i \<Rightarrow> Own (xs ! i)
          | None \<Rightarrow> if k = ''length'' then Own (JNum (int (length xs)))
                    else inherits E (JArr xs) k)"
| "lookup E (JStr s) k =
     Inr (case arrayIndex k (length s) of
            Some i \<Rightarrow> Own (JStr [s ! i])
          | None \<Rightarrow> if k = ''length'' then Own (JNum (int (length s)))
                    else inherits E (JStr s) k)"
| "lookup E v k = Inr (inherits E v k)"

fun taken :: "looked \<Rightarrow> bool" where
  "taken (Own v) = truthy v"
| "taken Inherited = True"
| "taken Missing = False"

text \<open>A fixed name read from what a lookup found.\<close>

fun fieldOf :: "looked \<Rightarrow> string \<Rightarrow> error + json" where
  "fieldOf (Own v) k = field v k"
| "fieldOf Inherited k = Inr JUndefined"
| "fieldOf Missing k = Inl TypeError"

text \<open>\<^verbatim>\<open>Object.entries\<close>: the own properties; of an array or a string, its elements by index.\<close>

fun entries :: "json \<Rightarrow> (string \<times> json) list" where
  "entries (JObj kvs) = kvs"
| "entries (JArr xs) = zip (map showNat [0 ..< length xs]) xs"
| "entries (JStr s) = zip (map showNat [0 ..< length s]) (map (\<lambda>c. JStr [c]) s)"
| "entries v = []"

subsection \<open>\<^verbatim>\<open>utils.ts\<close>\<close>

text \<open>\<^verbatim>\<open>s.lastIndexOf(pat)\<close>: the last position where \<open>pat\<close> occurs in \<open>s\<close>, or \<open>-1\<close>.\<close>

definition lastIndexOf :: "string \<Rightarrow> string \<Rightarrow> int" where
  "lastIndexOf s pat =
     (case filter (\<lambda>i. take (length pat) (drop i s) = pat) (rev [0 ..< Suc (length s)]) of
        [] \<Rightarrow> - 1
      | i # _ \<Rightarrow> int i)"

text \<open>
  \<^verbatim>\<open>basename\<close> of \<^verbatim>\<open>node:path\<close> (POSIX): trailing slashes are dropped, then the part after
  the last slash is returned.
\<close>

definition basename :: "string \<Rightarrow> string" where
  "basename p =
     rev (takeWhile (\<lambda>c. c \<noteq> CHR ''/'') (dropWhile (\<lambda>c. c = CHR ''/'') (rev p)))"

definition packageNameFromPath :: "string \<Rightarrow> string" where
  "packageNameFromPath path =
     (let i = lastIndexOf path ''node_modules/'' in
      if i > 0 then drop (nat i + length ''node_modules/'') path
      else
        let i1 = lastIndexOf path ''@'' in
        if i1 > 0 then drop (nat i1) path
        else basename path)"

subsection \<open>Data model of \<^verbatim>\<open>index.ts\<close>\<close>

datatype kind = License | MinPackageAge | MinWeeklyDownloads | Script

text \<open>The string a \<open>kind\<close> is in the source, as it is spliced into the index key.\<close>

fun kindName :: "kind \<Rightarrow> string" where
  "kindName License = ''license''"
| "kindName MinPackageAge = ''minPackageAge''"
| "kindName MinWeeklyDownloads = ''minWeeklyDownloads''"
| "kindName Script = ''script''"

record config =
  minPackageAge :: int
  minWeeklyDownloads :: int
  licenses :: "string list"
  blacklist :: "(string \<times> string) list"
  ignore :: "(string \<times> string) list"

text \<open>
  A warning.  Its \<^verbatim>\<open>cacheKey\<close> is a value: a string for every kind but the license
  warning, whose key is the \<^verbatim>\<open>license\<close> of the package as it was found, a string or not.
\<close>

record warning =
  package :: string
  message :: string
  cacheKey :: json
  type :: kind

record dependency =
  name :: string
  path :: string
  version :: string
  license :: "string option"

text \<open>One value of the lockfile's \<^verbatim>\<open>packages\<close> map.\<close>

record spec =
  spec_name :: "string option"
  spec_version :: string
  spec_license :: "string option"
  spec_link :: bool
  spec_optional :: bool

text \<open>One element of \<^verbatim>\<open>packages\<close> in \<^verbatim>\<open>package-policy.lock\<close>, the approval record.\<close>

record entry =
  c_package :: string
  c_type :: kind
  c_cacheKey :: json

record policyLock =
  lock_version :: int
  lock_packages :: "entry list"

subsection \<open>The reconciler of \<^verbatim>\<open>processRepo\<close> (the same text in both revisions)\<close>

text \<open>The key \<^verbatim>\<open>`${c.package}${c.cacheKey}${c.type}`\<close>.\<close>

definition indexKey :: "env \<Rightarrow> string \<Rightarrow> json \<Rightarrow> kind \<Rightarrow> string" where
  "indexKey E p k t = p @ render E k @ kindName t"

text \<open>\<^verbatim>\<open>cacheIndex\<close>: a \<^verbatim>\<open>Map\<close> filled by a loop over the prior record.\<close>

definition cacheIndex :: "env \<Rightarrow> entry list \<Rightarrow> (string \<rightharpoonup> entry)" where
  "cacheIndex E cacheData =
     foldl (\<lambda>m c. m(indexKey E (c_package c) (c_cacheKey c) (c_type c) \<mapsto> c)) Map.empty cacheData"

text \<open>
  The reset and refill of \<^verbatim>\<open>cacheData\<close>, and its sort by \<^verbatim>\<open>package\<close>
  (\<^verbatim>\<open>Array.prototype.sort\<close> is stable, as \<open>sort_key\<close> is).
\<close>

definition toEntry :: "warning \<Rightarrow> entry" where
  "toEntry problem =
     \<lparr>c_package = package problem, c_type = type problem, c_cacheKey = cacheKey problem\<rparr>"

definition rebuild :: "warning list \<Rightarrow> entry list" where
  "rebuild warnings = sort_key c_package (map toEntry warnings)"

text \<open>The filter of the warnings the user has already approved.\<close>

definition approved :: "env \<Rightarrow> (string \<rightharpoonup> entry) \<Rightarrow> warning \<Rightarrow> bool" where
  "approved E idx problem =
     (indexKey E (package problem) (cacheKey problem) (type problem) \<in> dom idx)"

definition unapproved :: "env \<Rightarrow> (string \<rightharpoonup> entry) \<Rightarrow> warning list \<Rightarrow> warning list" where
  "unapproved E idx warnings = filter (\<lambda>problem. \<not> approved E idx problem) warnings"

subsection \<open>The world\<close>

text \<open>
  The files of a run and the log of its requests, writes and prompts (latest last).
  \<open>packageLockJson\<close> is \<^verbatim>\<open>Object.entries(json.packages)\<close> of \<^verbatim>\<open>package-lock.json\<close>, in the
  order of the file; \<open>registryFiles\<close> is keyed by package name
  (\<^verbatim>\<open><cacheDir>/<name>.json\<close>), \<open>localPackageJson\<close> by install path
  (\<^verbatim>\<open><dir>/<path>/package.json\<close>).  \<open>downloadsFile\<close> is \<^verbatim>\<open>package-downloads.json\<close>, which
  holds what the program writes there: the own properties of an object of numbers.
\<close>

record world =
  packageLockJson :: "(string \<times> spec) list stored"
  yarnLock :: bool
  pnpmLock :: bool
  policyLockFile :: "policyLock stored"
  registryFiles :: "string \<Rightarrow> json stored"
  downloadsFile :: "(string \<rightharpoonup> int) stored"
  localPackageJson :: "string \<Rightarrow> json stored"
  events :: "event list"

definition emit :: "event \<Rightarrow> world \<Rightarrow> world" where
  "emit e w = w\<lparr>events := events w @ [e]\<rparr>"

subsection \<open>\<^verbatim>\<open>fetch.ts\<close>\<close>

text \<open>\<^verbatim>\<open>res.ok\<close>: a status from 200 to 299.\<close>

definition ok :: "nat \<Rightarrow> bool" where
  "ok status = (200 \<le> status \<and> status \<le> 299)"

text \<open>What \<^verbatim>\<open>fetchJson\<close> resolves or rejects to, and \<^verbatim>\<open>fetchJson\<close> with the request logged.\<close>

definition fetchJsonResult :: "env \<Rightarrow> string \<Rightarrow> error + json" where
  "fetchJsonResult E url =
     (case http E url of
        NoResponse \<Rightarrow> Inl NetworkError
      | Response status statusText body \<Rightarrow>
          if \<not> ok status
          then Inl (Error (''Failed to fetch '' @ url @ '': '' @ showNat status @ '' ''
                           @ statusText))
          else (case body of
                  None \<Rightarrow> Inl SyntaxError
                | Some json \<Rightarrow> Inr json))"

definition fetchJson :: "env \<Rightarrow> string \<Rightarrow> world \<Rightarrow> (error + json) \<times> world" where
  "fetchJson E url w = (fetchJsonResult E url, emit (GET url) w)"

subsection \<open>The extractor: \<^verbatim>\<open>readInstalledPackagesFromLockfile\<close>\<close>

text \<open>
  \<^verbatim>\<open>range && semver.satisfies(version, range, {includePrerelease: true})\<close> for the range
  \<^verbatim>\<open>ranges[packageName]\<close>.  Only an own property is a range: for a member that \<open>ranges\<close>
  inherits, which is no string, \<^verbatim>\<open>semver.satisfies\<close> answers \<^verbatim>\<open>false\<close>.
\<close>

definition matches :: "env \<Rightarrow> (string \<times> string) list \<Rightarrow> string \<Rightarrow> string \<Rightarrow> bool" where
  "matches E ranges packageName v =
     (case map_of ranges packageName of
        None \<Rightarrow> False
      | Some r \<Rightarrow> r \<noteq> [] \<and> satisfies E v r)"

text \<open>\<^verbatim>\<open>spec.name || packageNameFromPath(installationPath)\<close>.\<close>

definition nameOf :: "string \<Rightarrow> spec \<Rightarrow> string" where
  "nameOf installationPath spec =
     (case spec_name spec of
        None \<Rightarrow> packageNameFromPath installationPath
      | Some n \<Rightarrow> if n \<noteq> [] then n else packageNameFromPath installationPath)"

text \<open>The key \<^verbatim>\<open>`${packageName}@${spec.version}`\<close> and the value stored under it.\<close>

definition nameWithVersion :: "string \<Rightarrow> spec \<Rightarrow> string" where
  "nameWithVersion installationPath spec =
     nameOf installationPath spec @ ''@'' @ spec_version spec"

definition toDependency :: "string \<Rightarrow> spec \<Rightarrow> dependency" where
  "toDependency installationPath spec =
     \<lparr>name = nameOf installationPath spec, path = installationPath,
      version = spec_version spec, license = spec_license spec\<rparr>"

definition blacklistError :: "config \<Rightarrow> string \<Rightarrow> string \<Rightarrow> error" where
  "blacklistError config packageName v =
     Error (''Blacklisted version '' @ packageName @ ''@'' @ v @ '' (''
            @ the (map_of (blacklist config) packageName) @ '')'')"

text \<open>
  The loop over \<^verbatim>\<open>Object.entries(json.packages)\<close> in \<^verbatim>\<open>src/lib/index.ts\<close>.  \<open>deps\<close> is
  the object \<^verbatim>\<open>deps\<close>, its keys in insertion order.
\<close>

fun lockfileLoop ::
  "env \<Rightarrow> config \<Rightarrow> (string \<times> dependency) list \<Rightarrow> (string \<times> spec) list
     \<Rightarrow> error + (string \<times> dependency) list" where
  "lockfileLoop E config deps [] = Inr deps"
| "lockfileLoop E config deps ((installationPath, spec) # rest) =
     (if installationPath = [] then lockfileLoop E config deps rest
      else if spec_link spec then lockfileLoop E config deps rest
      else
        let packageName = nameOf installationPath spec in
          if map_of deps (nameWithVersion installationPath spec) \<noteq> None
            then lockfileLoop E config deps rest
          else if matches E (blacklist config) packageName (spec_version spec)
            then Inl (blacklistError config packageName (spec_version spec))
          else if matches E (ignore config) packageName (spec_version spec)
            then lockfileLoop E config deps rest
          else lockfileLoop E config
                 (deps @ [(nameWithVersion installationPath spec,
                           toDependency installationPath spec)])
                 rest)"

text \<open>The same loop in \<^verbatim>\<open>src/unnamed/part_002\<close>, which also skips optional entries.\<close>

fun lockfileLoop_p2 ::
  "env \<Rightarrow> config \<Rightarrow> (string \<times> dependency) list \<Rightarrow> (string \<times> spec) list
     \<Rightarrow> error + (string \<times> dependency) list" where
  "lockfileLoop_p2 E config deps [] = Inr deps"
| "lockfileLoop_p2 E config deps ((installationPath, spec) # rest) =
     (if installationPath = [] then lockfileLoop_p2 E config deps rest
      else if spec_link spec then lockfileLoop_p2 E config deps rest
      else if spec_optional spec then lockfileLoop_p2 E config deps rest
      else
        let packageName = nameOf installationPath spec in
          if map_of deps (nameWithVersion installationPath spec) \<noteq> None
            then lockfileLoop_p2 E config deps rest
          else if matches E (blacklist config) packageName (spec_version spec)
            then Inl (blacklistError config packageName (spec_version spec))
          else if matches E (ignore config) packageName (spec_version spec)
            then lockfileLoop_p2 E config deps rest
          else lockfileLoop_p2 E config
                 (deps @ [(nameWithVersion installationPath spec,
                           toDependency installationPath spec)])
                 rest)"

text \<open>
  Names for the tests of the loop, used to state its properties: an entry that is not
  skipped as root or link (in \<^verbatim>\<open>src/unnamed/part_002\<close>: nor as optional), an entry the
  blacklist matches, an entry the ignore list matches, and an entry under a given key that
  is neither skipped nor ignored.
\<close>

definition installed :: "string \<Rightarrow> spec \<Rightarrow> bool" where
  "installed installationPath spec = (installationPath \<noteq> [] \<and> \<not> spec_link spec)"

definition installed_p2 :: "string \<Rightarrow> spec \<Rightarrow> bool" where
  "installed_p2 installationPath spec =
     (installationPath \<noteq> [] \<and> \<not> spec_link spec \<and> \<not> spec_optional spec)"

definition blacklisted :: "env \<Rightarrow> config \<Rightarrow> string \<Rightarrow> spec \<Rightarrow> bool" where
  "blacklisted E config installationPath spec =
     matches E (blacklist config) (nameOf installationPath spec) (spec_version spec)"

definition ignored :: "env \<Rightarrow> config \<Rightarrow> string \<Rightarrow> spec \<Rightarrow> bool" where
  "ignored E config installationPath spec =
     matches E (ignore config) (nameOf installationPath spec) (spec_version spec)"

text \<open>The string \<^verbatim>\<open>name@version\<close> of an extracted dependency.\<close>

definition depKey :: "dependency \<Rightarrow> string" where
  "depKey d = name d @ ''@'' @ version d"

definition candidate :: "env \<Rightarrow> config \<Rightarrow> string \<Rightarrow> string \<times> spec \<Rightarrow> bool" where
  "candidate E config k e =
     (installed (fst e) (snd e) \<and> \<not> ignored E config (fst e) (snd e)
      \<and> nameWithVersion (fst e) (snd e) = k)"

text \<open>
  The choice of the lockfile around the loop, and the final
  \<^verbatim>\<open>Object.values(deps).sort(...)\<close> by \<^verbatim>\<open>name\<close>.
\<close>

definition withLockfile ::
  "env \<Rightarrow> world \<Rightarrow> ((string \<times> spec) list \<Rightarrow> error + (string \<times> dependency) list)
     \<Rightarrow> error + dependency list" where
  "withLockfile E w loop =
     (case packageLockJson w of
        Content packages \<Rightarrow>
          andThen (loop packages) (\<lambda>deps. Inr (sort_key name (map snd deps)))
      | Corrupt \<Rightarrow> Inl SyntaxError
      | Absent \<Rightarrow>
          if yarnLock w then Inl (Error ''yaml.lock not supported yet'')
          else if pnpmLock w then Inl (Error ''pnpm-lock.yaml not supported yet'')
          else Inl (Error (''No lockfile found in '' @ dir E)))"

definition readInstalledPackagesFromLockfile ::
  "env \<Rightarrow> config \<Rightarrow> world \<Rightarrow> error + dependency list" where
  "readInstalledPackagesFromLockfile E config w = withLockfile E w (lockfileLoop E config [])"

definition readInstalledPackagesFromLockfile_p2 ::
  "env \<Rightarrow> config \<Rightarrow> world \<Rightarrow> error + dependency list" where
  "readInstalledPackagesFromLockfile_p2 E config w =
     withLockfile E w (lockfileLoop_p2 E config [])"

subsection \<open>The registry metadata cache: \<^verbatim>\<open>cacheRegistry\<close>\<close>

definition registryUrl :: "string \<Rightarrow> string" where
  "registryUrl packageName = ''https://registry.npmjs.org/'' @ packageName"

text \<open>
  The body of the \<^verbatim>\<open>try\<close> block in \<^verbatim>\<open>src/lib/index.ts\<close>, after the file is read and
  parsed: \<open>Inr (Some cache)\<close> is \<^verbatim>\<open>return cache\<close>, \<open>Inr None\<close> falls through, \<open>Inl\<close> is a
  throw, which the \<^verbatim>\<open>catch\<close> logs (the text of the error, which names the file, is seen
  nowhere else).  \<^verbatim>\<open>cache.versions[version]\<close> is a lookup with a computed key.
\<close>

definition tryCache :: "env \<Rightarrow> json \<Rightarrow> string \<Rightarrow> error + json option" where
  "tryCache E cache v =
     andThen (field cache ''_version'') (\<lambda>cv.
       if cv \<noteq> JNum 1 then Inl (Error ''Invalid cache version'')
       else
         andThen (field cache ''versions'') (\<lambda>vs.
           andThen (lookup E vs v) (\<lambda>x.
             Inr (if taken x then Some cache else None))))"

text \<open>
  \<^verbatim>\<open>s.includes(v)\<close> on a string, and \<^verbatim>\<open>cache.versions.includes(version)\<close> as
  \<^verbatim>\<open>src/unnamed/part_002\<close> has it: membership in an array, a substring test on a string, a
  \<^verbatim>\<open>TypeError\<close> on anything else.
\<close>

definition includesString :: "string \<Rightarrow> string \<Rightarrow> bool" where
  "includesString s v = (lastIndexOf s v \<ge> 0)"

fun includesVersion :: "json \<Rightarrow> string \<Rightarrow> error + bool" where
  "includesVersion (JArr xs) v = Inr (JStr v \<in> set xs)"
| "includesVersion (JStr s) v = Inr (includesString s v)"
| "includesVersion x v = Inl TypeError"

definition tryCache_p2 :: "env \<Rightarrow> json \<Rightarrow> string \<Rightarrow> error + json option" where
  "tryCache_p2 E cache v =
     andThen (field cache ''_version'') (\<lambda>cv.
       if cv \<noteq> JNum 1 then Inl (Error ''Invalid cache version'')
       else
         andThen (field cache ''versions'') (\<lambda>vs.
           andThen (includesVersion vs v) (\<lambda>b.
             Inr (if b then Some cache else None))))"

text \<open>
  What the \<^verbatim>\<open>if (existsSync(cacheFile) ...)\<close> block yields once the file is read: the stored
  record on a hit, nothing when the file is missing or does not parse, on a miss and on a
  caught throw.
\<close>

definition cacheHit ::
  "(env \<Rightarrow> json \<Rightarrow> string \<Rightarrow> error + json option) \<Rightarrow> env \<Rightarrow> string \<Rightarrow> string \<Rightarrow> world
     \<Rightarrow> json option" where
  "cacheHit look E packageName v w =
     (case registryFiles w packageName of
        Content cache \<Rightarrow>
          (case look E cache v of Inr (Some c) \<Rightarrow> Some c | Inr None \<Rightarrow> None | Inl e \<Rightarrow> None)
      | Corrupt \<Rightarrow> None
      | Absent \<Rightarrow> None)"

text \<open>The four checks of the fetched document (the same text in both revisions).\<close>

fun isString :: "looked \<Rightarrow> bool" where
  "isString (Own (JStr s)) = True"
| "isString x = False"

definition validate :: "env \<Rightarrow> json \<Rightarrow> string \<Rightarrow> string \<Rightarrow> error + unit" where
  "validate E json packageName v =
     andThen (field json ''versions'') (\<lambda>vs.
       if \<not> truthy vs then Inl (Error (''No versions field in '' @ registryUrl packageName))
       else
         andThen (lookup E vs v) (\<lambda>d.
           if \<not> taken d
           then Inl (Error (packageName @ ''@'' @ v @ '' was not found in the registry!''))
           else
             andThen (field json ''time'') (\<lambda>t.
               if \<not> truthy t then Inl (Error (''No time field in '' @ registryUrl packageName))
               else
                 andThen (lookup E t v) (\<lambda>tv.
                   if \<not> isString tv
                   then Inl (Error (packageName @ ''@'' @ v
                                     @ '' has no time field in the registry!''))
                   else Inr ()))))"

text \<open>
  \<^verbatim>\<open>requiredData\<close> of \<^verbatim>\<open>src/lib/index.ts\<close>.  The loop assigns, per entry of the fetched
  \<^verbatim>\<open>versions\<close>, an object of its \<^verbatim>\<open>license\<close> and \<^verbatim>\<open>scripts\<close> to
  \<^verbatim>\<open>requiredData.versions[version]\<close>.
\<close>

fun reduceVersions :: "(string \<times> json) list \<Rightarrow> error + (string \<times> json) list" where
  "reduceVersions [] = Inr []"
| "reduceVersions ((v, data) # rest) =
     andThen (field data ''license'') (\<lambda>l.
       andThen (field data ''scripts'') (\<lambda>s.
         andThen (reduceVersions rest) (\<lambda>r.
           Inr ((v, JObj [(''license'', l), (''scripts'', s)]) # r))))"

text \<open>
  An assignment to the key \<^verbatim>\<open>__proto__\<close> of the fresh object creates no property: it makes
  the assigned object the prototype.  So the own properties of \<^verbatim>\<open>requiredData.versions\<close> are
  the assigned entries but that one, and a lookup that finds no own property goes on to the
  members of the assigned prototype: \<^verbatim>\<open>__proto__\<close> answers the prototype itself, and
  \<^verbatim>\<open>license\<close> and \<^verbatim>\<open>scripts\<close> its two properties.  \<open>inMemory\<close> lists what the lookups of
  the object in memory find, own properties first.
\<close>

definition ownVersions :: "(string \<times> json) list \<Rightarrow> (string \<times> json) list" where
  "ownVersions r = filter (\<lambda>kv. fst kv \<noteq> ''__proto__'') r"

definition inMemory :: "(string \<times> json) list \<Rightarrow> (string \<times> json) list" where
  "inMemory r =
     ownVersions r
     @ (case map_of r ''__proto__'' of
          None \<Rightarrow> []
        | Some p \<Rightarrow> (''__proto__'', p) # entries p)"

text \<open>
  What \<^verbatim>\<open>JSON.parse\<close> reads back from \<^verbatim>\<open>JSON.stringify(requiredData, null, 2)\<close>: the own
  properties, without those whose value is \<^verbatim>\<open>undefined\<close>.
\<close>

fun dropUndefined :: "json \<Rightarrow> json" where
  "dropUndefined (JObj kvs) = JObj (filter (\<lambda>kv. snd kv \<noteq> JUndefined) kvs)"
| "dropUndefined v = v"

definition onDisk :: "(string \<times> json) list \<Rightarrow> (string \<times> json) list" where
  "onDisk r = map (\<lambda>kv. (fst kv, dropUndefined (snd kv))) (ownVersions r)"

text \<open>
  The record returned, as it is in memory, paired with the record as the file will hold
  it.
\<close>

definition requiredData :: "json \<Rightarrow> error + json \<times> json" where
  "requiredData json =
     andThen (field json ''time'') (\<lambda>t.
       andThen (field json ''versions'') (\<lambda>vs.
         andThen (reduceVersions (entries vs)) (\<lambda>r.
           Inr (JObj [(''_version'', JNum 1), (''time'', t), (''versions'', JObj (inMemory r))],
                JObj [(''_version'', JNum 1), (''time'', t), (''versions'', JObj (onDisk r))]))))"

text \<open>
  \<^verbatim>\<open>requiredData\<close> of \<^verbatim>\<open>src/unnamed/part_002\<close>: \<^verbatim>\<open>versions\<close> is \<^verbatim>\<open>Object.keys(json.versions)\<close>,
  and the file holds the record as it is.
\<close>

definition requiredData_p2 :: "json \<Rightarrow> error + json \<times> json" where
  "requiredData_p2 json =
     andThen (field json ''time'') (\<lambda>t.
       andThen (field json ''versions'') (\<lambda>vs.
         let data = JObj [(''_version'', JNum 1), (''time'', t),
                          (''versions'', JArr (map (\<lambda>kv. JStr (fst kv)) (entries vs)))]
         in Inr (data, data)))"

text \<open>
  What follows the request of the registry, once the response is there: the checks and the
  construction of \<^verbatim>\<open>requiredData\<close>, or a throw.
\<close>

definition fetched ::
  "(json \<Rightarrow> error + json \<times> json) \<Rightarrow> env \<Rightarrow> string \<Rightarrow> string \<Rightarrow> error + json \<times> json" where
  "fetched build E packageName v =
     andThen (fetchJsonResult E (registryUrl packageName)) (\<lambda>json.
       andThen (validate E json packageName v) (\<lambda>u. build json))"

text \<open>
  The write of the cache file, \<^verbatim>\<open>fs.mkdir\<close> and \<^verbatim>\<open>fs.writeFile\<close> inside a \<^verbatim>\<open>try\<close>: a
  failure is logged and changes nothing.
\<close>

definition writeCache :: "env \<Rightarrow> string \<Rightarrow> json \<Rightarrow> world \<Rightarrow> world" where
  "writeCache E packageName disk w =
     (if writable E (WriteRegistryCache packageName)
      then emit (WriteRegistryCache packageName)
             (w\<lparr>registryFiles := (registryFiles w)(packageName := Content disk)\<rparr>)
      else w)"

text \<open>
  \<^verbatim>\<open>cacheRegistry\<close> run from its call to its return with no other callback in between, with
  the \<^verbatim>\<open>try\<close> block and the construction of \<^verbatim>\<open>requiredData\<close> as parameters; everything
  else is the same text in both revisions.
\<close>

definition cacheRegistryWith ::
  "(env \<Rightarrow> json \<Rightarrow> string \<Rightarrow> error + json option) \<Rightarrow> (json \<Rightarrow> error + json \<times> json)
     \<Rightarrow> env \<Rightarrow> string \<Rightarrow> string \<Rightarrow> world \<Rightarrow> (error + json) \<times> world" where
  "cacheRegistryWith look build E packageName v w =
     (case cacheHit look E packageName v w of
        Some cache \<Rightarrow> (Inr cache, w)
      | None \<Rightarrow>
          (case fetched build E packageName v of
             Inl e \<Rightarrow> (Inl e, emit (GET (registryUrl packageName)) w)
           | Inr (data, disk) \<Rightarrow>
               (Inr data, writeCache E packageName disk (emit (GET (registryUrl packageName)) w))))"

definition cacheRegistry ::
  "env \<Rightarrow> string \<Rightarrow> string \<Rightarrow> world \<Rightarrow> (error + json) \<times> world" where
  "cacheRegistry = cacheRegistryWith tryCache requiredData"

definition cacheRegistry_p2 ::
  "env \<Rightarrow> string \<Rightarrow> string \<Rightarrow> world \<Rightarrow> (error + json) \<times> world" where
  "cacheRegistry_p2 = cacheRegistryWith tryCache_p2 requiredData_p2"

text \<open>
  A stored record \<^emph>\<open>holds\<close> a version when it is an object with \<^verbatim>\<open>_version\<close> 1 whose
  \<^verbatim>\<open>versions\<close> has the version: as a key of an object in the layout of \<^verbatim>\<open>src/lib/index.ts\<close>,
  as an element of an array in the layout of \<^verbatim>\<open>src/unnamed/part_002\<close>.
\<close>

definition holdsVersion :: "json \<Rightarrow> string \<Rightarrow> bool" where
  "holdsVersion cache v =
     (case cache of
        JObj kvs \<Rightarrow>
          map_of kvs ''_version'' = Some (JNum 1)
          \<and> (case map_of kvs ''versions'' of
                Some (JObj m) \<Rightarrow> v \<in> fst ` set m
              | x \<Rightarrow> False)
      | x \<Rightarrow> False)"

definition holdsVersion_p2 :: "json \<Rightarrow> string \<Rightarrow> bool" where
  "holdsVersion_p2 cache v =
     (case cache of
        JObj kvs \<Rightarrow>
          map_of kvs ''_version'' = Some (JNum 1)
          \<and> (case map_of kvs ''versions'' of
                Some (JArr xs) \<Rightarrow> JStr v \<in> set xs
              | x \<Rightarrow> False)
      | x \<Rightarrow> False)"

subsection \<open>The evaluator: \<^verbatim>\<open>checkPackage\<close>\<close>

definition scriptList :: "string list" where
  "scriptList = [''preinstall'', ''install'', ''postinstall'', ''prepare'']"

text \<open>
  \<^verbatim>\<open>date.getTime() > Date.now() - minPackageAge\<close> for \<^verbatim>\<open>new Date(time)\<close>; a comparison with
  \<^verbatim>\<open>NaN\<close> is false.  The date of \<^verbatim>\<open>undefined\<close> and of an inherited member is invalid.
\<close>

fun dateOf :: "env \<Rightarrow> looked \<Rightarrow> int option" where
  "dateOf E (Own time) = (if time = JUndefined then None else getTime E time)"
| "dateOf E x = None"

definition tooYoung :: "env \<Rightarrow> int \<Rightarrow> looked \<Rightarrow> bool" where
  "tooYoung E age time =
     (case dateOf E time of None \<Rightarrow> False | Some t \<Rightarrow> t > now E - age)"

text \<open>
  The rendering \<^verbatim>\<open>ts\<close> of the age and the text of \<^verbatim>\<open>time\<close>; messages are modelled without
  their colours.  Both are used for a time that is too young only, which is an own
  property.
\<close>

definition ago :: "env \<Rightarrow> looked \<Rightarrow> string" where
  "ago E time =
     (let elapsed = now E - the (dateOf E time) in
      if elapsed > 86400000 then toString E (elapsed div 86400000) @ '' days ago''
      else toString E (elapsed div 3600000) @ '' hours ago'')"

fun found :: "looked \<Rightarrow> json" where
  "found (Own v) = v"
| "found x = JUndefined"

definition ageProblem :: "env \<Rightarrow> string \<Rightarrow> string \<Rightarrow> looked \<Rightarrow> warning" where
  "ageProblem E pkg v time =
     \<lparr>package = pkg,
      message = ''is violating the package minAge policy. Last published '' @ ago E time
                @ '' ('' @ render E (found time) @ '')'',
      cacheKey = JStr v,
      type = MinPackageAge\<rparr>"

definition scriptProblems :: "env \<Rightarrow> string \<Rightarrow> json \<Rightarrow> warning list" where
  "scriptProblems E pkg scripts =
     concat (map (\<lambda>kv.
       if fst kv \<in> set scriptList
       then [\<lparr>package = pkg,
              message = ''will run script '' @ [CHR 0x22] @ fst kv @ [CHR 0x22] @ '': '' @ [CHR 0x22]
                        @ render E (snd kv) @ [CHR 0x22],
              cacheKey = JStr (fst kv @ '': '' @ render E (snd kv)),
              type = Script\<rparr>]
       else []) (entries scripts))"

text \<open>\<^verbatim>\<open>config.licenses.includes(license)\<close>: strict equality with one of the strings.\<close>

definition whitelisted :: "config \<Rightarrow> json \<Rightarrow> bool" where
  "whitelisted config l = (case l of JStr s \<Rightarrow> s \<in> set (licenses config) | x \<Rightarrow> False)"

definition licenseProblems :: "env \<Rightarrow> config \<Rightarrow> string \<Rightarrow> json \<Rightarrow> warning list" where
  "licenseProblems E config pkg l =
     (if \<not> truthy l
      then [\<lparr>package = pkg, message = ''has no license field in package.json'',
             cacheKey = JStr ''no license'', type = License\<rparr>]
      else [])
     @ (if truthy l \<and> \<not> whitelisted config l
        then [\<lparr>package = pkg,
               message = ''has license '' @ render E l @ '' which is not in the whitelist'',
               cacheKey = l, type = License\<rparr>]
        else [])"

text \<open>
  The body of the \<^verbatim>\<open>try\<close> block of \<^verbatim>\<open>checkPackage\<close> after \<^verbatim>\<open>cacheRegistry\<close> has returned
  \<open>json\<close>.  \<^verbatim>\<open>problems\<close> is declared outside the block, so what was pushed before a
  throw is returned.
\<close>

definition versionMeta :: "env \<Rightarrow> json \<Rightarrow> string \<Rightarrow> string \<Rightarrow> error + json" where
  "versionMeta E json v k =
     andThen (field json ''versions'') (\<lambda>vs.
       andThen (lookup E vs v) (\<lambda>m. fieldOf m k))"

definition evaluate :: "env \<Rightarrow> config \<Rightarrow> string \<Rightarrow> string \<Rightarrow> json \<Rightarrow> warning list" where
  "evaluate E config packageName packageVersion json =
     (let packageNameVersion = packageName @ ''@'' @ packageVersion in
      case andThen (field json ''time'') (\<lambda>t. lookup E t packageVersion) of
        Inl e \<Rightarrow> []
      | Inr time \<Rightarrow>
          let p1 = (if minPackageAge config \<noteq> 0 \<and> tooYoung E (minPackageAge config) time
                    then [ageProblem E packageNameVersion packageVersion time] else [])
          in
            case versionMeta E json packageVersion ''scripts'' of
              Inl e \<Rightarrow> p1
            | Inr scripts \<Rightarrow>
                let p2 = p1 @ scriptProblems E packageNameVersion
                                (if truthy scripts then scripts else JArr [])
                in
                  if licenses config = [] then p2
                  else
                    case versionMeta E json packageVersion ''license'' of
                      Inl e \<Rightarrow> p2
                    | Inr l \<Rightarrow> p2 @ licenseProblems E config packageNameVersion l)"

text \<open>
  \<^verbatim>\<open>checkPackage\<close> run from its call to its return with no other callback in between: a
  throw of \<^verbatim>\<open>cacheRegistry\<close> is caught and leaves no problem.
\<close>

definition checkPackage ::
  "env \<Rightarrow> config \<Rightarrow> string \<Rightarrow> string \<Rightarrow> world \<Rightarrow> warning list \<times> world" where
  "checkPackage E config packageName packageVersion w =
     (case cacheRegistry E packageName packageVersion w of
        (Inl e, w1) \<Rightarrow> ([], w1)
      | (Inr json, w1) \<Rightarrow> (evaluate E config packageName packageVersion json, w1))"

text \<open>
  \<^verbatim>\<open>src/unnamed/part_002\<close> reads the installed \<^verbatim>\<open>package.json\<close> for scripts and license
  (a missing file gives no warning, any other failure is thrown again) and asks the
  registry for the age only.
\<close>

definition processLocalPackageJson_p2 ::
  "env \<Rightarrow> config \<Rightarrow> dependency \<Rightarrow> world \<Rightarrow> error + warning list" where
  "processLocalPackageJson_p2 E config dep w =
     (let nm = name dep @ ''@'' @ version dep in
      case localPackageJson w (path dep) of
        Absent \<Rightarrow> Inr []
      | Corrupt \<Rightarrow> Inl SyntaxError
      | Content json \<Rightarrow>
          andThen (field json ''scripts'') (\<lambda>scripts.
            if \<not> truthy scripts then Inr []
            else if licenses config = [] then Inr (scriptProblems E nm scripts)
            else
              andThen (field json ''license'') (\<lambda>l.
                Inr (scriptProblems E nm scripts @ licenseProblems E config nm l))))"

text \<open>
  The body of the \<^verbatim>\<open>try\<close> block of \<^verbatim>\<open>checkPackageAge\<close> after \<^verbatim>\<open>cacheRegistry\<close> has
  returned \<open>json\<close>, and \<^verbatim>\<open>checkPackageAge\<close> run with no other callback in between.
\<close>

definition ageWarning_p2 :: "env \<Rightarrow> int \<Rightarrow> string \<Rightarrow> string \<Rightarrow> json \<Rightarrow> warning option" where
  "ageWarning_p2 E age packageName v json =
     (case andThen (field json ''time'') (\<lambda>t. lookup E t v) of
        Inl e \<Rightarrow> None
      | Inr time \<Rightarrow> if tooYoung E age time then Some (ageProblem E packageName v time) else None)"

definition checkPackageAge_p2 ::
  "env \<Rightarrow> int \<Rightarrow> string \<Rightarrow> string \<Rightarrow> world \<Rightarrow> warning option \<times> world" where
  "checkPackageAge_p2 E age packageName v w =
     (case cacheRegistry_p2 E packageName v w of
        (Inl e, w1) \<Rightarrow> (None, w1)
      | (Inr json, w1) \<Rightarrow> (ageWarning_p2 E age packageName v json, w1))"

subsection \<open>\<^verbatim>\<open>package-downloads.ts\<close>\<close>

definition downloadsUrl :: "string \<Rightarrow> string" where
  "downloadsUrl packageName = ''https://api.npmjs.org/downloads/point/last-week/'' @ packageName"

text \<open>
  A value of the object \<^verbatim>\<open>packageDownloadCache\<close> in memory: a count, or a member of
  \<^verbatim>\<open>Object.prototype\<close> (a function, or the prototype itself), which is what a lookup of the
  object finds under a name it has no own property for.
\<close>

datatype cached = Count int | Builtin

definition getPackageDownloadCache :: "world \<Rightarrow> error + (string \<rightharpoonup> cached)" where
  "getPackageDownloadCache w =
     (case downloadsFile w of
        Absent \<Rightarrow> Inr Map.empty
      | Corrupt \<Rightarrow> Inl SyntaxError
      | Content cache \<Rightarrow> Inr (\<lambda>k. map_option Count (cache k)))"

text \<open>
  \<^verbatim>\<open>JSON.stringify(cache, null, 2)\<close> writes the own properties that are numbers and leaves
  out those that are functions.
\<close>

definition counts :: "(string \<rightharpoonup> cached) \<Rightarrow> (string \<rightharpoonup> int)" where
  "counts cache = (\<lambda>k. case cache k of Some (Count n) \<Rightarrow> Some n | x \<Rightarrow> None)"

text \<open>\<^verbatim>\<open>fs.mkdir\<close> and \<^verbatim>\<open>fs.writeFile\<close>, awaited outside of any \<^verbatim>\<open>try\<close>.\<close>

definition savePackageDownloadCache ::
  "env \<Rightarrow> (string \<rightharpoonup> cached) \<Rightarrow> world \<Rightarrow> error + world" where
  "savePackageDownloadCache E cache w =
     (if writable E WriteDownloads
      then Inr (emit WriteDownloads (w\<lparr>downloadsFile := Content (counts cache)\<rparr>))
      else Inl IOError)"

text \<open>
  \<^verbatim>\<open>checkPackageDownloads\<close> of \<^verbatim>\<open>src/lib/package-downloads.ts\<close>: \<^verbatim>\<open>fetch\<close> and
  \<^verbatim>\<open>req.json()\<close> without a look at the status, and a throw when \<^verbatim>\<open>downloads\<close> is not a
  number.  \<open>downloadsResult\<close> is what the call resolves or rejects to.
\<close>

definition downloadsResult :: "env \<Rightarrow> string \<Rightarrow> error + int" where
  "downloadsResult E packageName =
     (case http E (downloadsUrl packageName) of
        NoResponse \<Rightarrow> Inl NetworkError
      | Response status statusText body \<Rightarrow>
          (case body of
             None \<Rightarrow> Inl SyntaxError
           | Some json \<Rightarrow>
               (case field json ''downloads'' of
                  Inl e \<Rightarrow> Inl e
                | Inr (JNum n) \<Rightarrow> Inr n
                | Inr x \<Rightarrow> Inl (Error ''Bad response: no `downloads` field''))))"

definition checkPackageDownloads ::
  "env \<Rightarrow> string \<Rightarrow> world \<Rightarrow> (error + int) \<times> world" where
  "checkPackageDownloads E packageName w =
     (downloadsResult E packageName, emit (GET (downloadsUrl packageName)) w)"

text \<open>
  \<^verbatim>\<open>checkPackageDownloads\<close> of \<^verbatim>\<open>src/unnamed/part_003\<close>: \<^verbatim>\<open>fetchJson\<close> inside a \<^verbatim>\<open>try\<close>
  whose \<^verbatim>\<open>catch\<close> returns \<open>-1\<close>.
\<close>

definition downloadsResult_p2 :: "env \<Rightarrow> string \<Rightarrow> int" where
  "downloadsResult_p2 E packageName =
     (case fetchJsonResult E (downloadsUrl packageName) of
        Inl e \<Rightarrow> - 1
      | Inr res \<Rightarrow>
          (case field res ''downloads'' of
             Inl e \<Rightarrow> - 1
           | Inr (JNum n) \<Rightarrow> n
           | Inr x \<Rightarrow> - 1))"

definition checkPackageDownloads_p2 :: "env \<Rightarrow> string \<Rightarrow> world \<Rightarrow> int \<times> world" where
  "checkPackageDownloads_p2 E packageName w =
     (downloadsResult_p2 E packageName, emit (GET (downloadsUrl packageName)) w)"

subsection \<open>The orchestrator: the loop of \<^verbatim>\<open>processRepo\<close>\<close>

text \<open>The variables the callbacks of the loop share.\<close>

record run =
  warnings :: "warning list"
  packageDownloadCache :: "string \<rightharpoonup> cached"
  checkedPackageDownloads :: "string set"

text \<open>
  \<^verbatim>\<open>packageDownloadCache[dep.name]\<close>: the own property, or else the member of
  \<^verbatim>\<open>Object.prototype\<close> of that name, or else \<^verbatim>\<open>undefined\<close>; and its truthiness, which
  decides whether the network is asked.
\<close>

definition cachedDownloads :: "(string \<rightharpoonup> cached) \<Rightarrow> string \<Rightarrow> cached option" where
  "cachedDownloads cache nm =
     (case cache nm of
        Some d \<Rightarrow> Some d
      | None \<Rightarrow> if nm \<in> set objectPrototype then Some Builtin else None)"

fun truthyCached :: "cached option \<Rightarrow> bool" where
  "truthyCached (Some (Count n)) = (n \<noteq> 0)"
| "truthyCached (Some Builtin) = True"
| "truthyCached None = False"

text \<open>\<^verbatim>\<open>downloads !== -1\<close>.\<close>

fun known :: "cached \<Rightarrow> bool" where
  "known (Count n) = (n \<noteq> - 1)"
| "known Builtin = True"

text \<open>
  \<^verbatim>\<open>packageDownloadCache[dep.name] = downloads\<close>.  Under the name \<^verbatim>\<open>__proto__\<close> the
  inherited member is the prototype, and assigning it back creates no property.
\<close>

definition store :: "string \<Rightarrow> cached \<Rightarrow> (string \<rightharpoonup> cached) \<Rightarrow> (string \<rightharpoonup> cached)" where
  "store nm downloads cache =
     (if nm = ''__proto__'' \<and> downloads = Builtin then cache else cache(nm \<mapsto> downloads))"

text \<open>
  The low-usage warning of each revision for a count; they differ in the \<^verbatim>\<open>cacheKey\<close>
  only.
\<close>

definition downloadsProblem :: "env \<Rightarrow> config \<Rightarrow> dependency \<Rightarrow> int \<Rightarrow> warning" where
  "downloadsProblem E config dep downloads =
     \<lparr>package = name dep,
      message = ''had '' @ toString E downloads @ '' downloads last week'',
      cacheKey = JStr (toString E (minWeeklyDownloads config)),
      type = MinWeeklyDownloads\<rparr>"

definition downloadsProblem_p2 :: "env \<Rightarrow> config \<Rightarrow> dependency \<Rightarrow> int \<Rightarrow> warning" where
  "downloadsProblem_p2 E config dep downloads =
     \<lparr>package = name dep,
      message = ''had '' @ toString E downloads @ '' downloads last week'',
      cacheKey = JStr (''minWeeklyDownloads='' @ toString E (minWeeklyDownloads config)),
      type = MinWeeklyDownloads\<rparr>"

text \<open>
  What follows the lookup: the name is marked as checked, a value other than \<open>-1\<close> is
  stored, and a count other than \<open>-1\<close> below the threshold pushes a warning.  An inherited
  member, a function or an object, compares with the threshold as \<^verbatim>\<open>NaN\<close>: it is not below
  it.
\<close>

definition noteDownloads ::
  "(config \<Rightarrow> dependency \<Rightarrow> int \<Rightarrow> warning) \<Rightarrow> config \<Rightarrow> dependency \<Rightarrow> cached \<Rightarrow> run \<Rightarrow> run" where
  "noteDownloads problem config dep downloads r =
     (let r1 = r\<lparr>checkedPackageDownloads := insert (name dep) (checkedPackageDownloads r)\<rparr>;
          r2 = (if known downloads
                then r1\<lparr>packageDownloadCache := store (name dep) downloads (packageDownloadCache r1)\<rparr>
                else r1)
      in
        case downloads of
          Count n \<Rightarrow>
            if n \<noteq> - 1 \<and> n < minWeeklyDownloads config
            then r2\<lparr>warnings := warnings r2 @ [problem config dep n]\<rparr>
            else r2
        | Builtin \<Rightarrow> r2)"

text \<open>\<^verbatim>\<open>enableDownloadCheck\<close>.\<close>

definition enableDownloadCheck :: "config \<Rightarrow> bool" where
  "enableDownloadCheck config = (minWeeklyDownloads config \<noteq> 0 \<and> minWeeklyDownloads config > 0)"

subsubsection \<open>The callback of \<^verbatim>\<open>slice.map\<close>, run alone\<close>

text \<open>
  The callback read from its first line to its last, as it runs when no other callback is
  resumed in between.  \<^verbatim>\<open>packageDownloadCache[dep.name] || (await
  checkPackageDownloads(dep.name))\<close>: a cached value that is truthy is taken, anything else
  asks the network.
\<close>

definition lookupDownloads ::
  "env \<Rightarrow> string \<Rightarrow> run \<Rightarrow> world \<Rightarrow> (error + cached) \<times> world" where
  "lookupDownloads E nm r w =
     (case cachedDownloads (packageDownloadCache r) nm of
        Some downloads \<Rightarrow>
          if truthyCached (Some downloads) then (Inr downloads, w)
          else (case checkPackageDownloads E nm w of
                  (Inl e, w1) \<Rightarrow> (Inl e, w1)
                | (Inr n, w1) \<Rightarrow> (Inr (Count n), w1))
      | None \<Rightarrow>
          (case checkPackageDownloads E nm w of
             (Inl e, w1) \<Rightarrow> (Inl e, w1)
           | (Inr n, w1) \<Rightarrow> (Inr (Count n), w1)))"

definition lookupDownloads_p2 :: "env \<Rightarrow> string \<Rightarrow> run \<Rightarrow> world \<Rightarrow> cached \<times> world" where
  "lookupDownloads_p2 E nm r w =
     (case cachedDownloads (packageDownloadCache r) nm of
        Some downloads \<Rightarrow>
          if truthyCached (Some downloads) then (downloads, w)
          else (case checkPackageDownloads_p2 E nm w of (n, w1) \<Rightarrow> (Count n, w1))
      | None \<Rightarrow> (case checkPackageDownloads_p2 E nm w of (n, w1) \<Rightarrow> (Count n, w1)))"

definition downloadCheck ::
  "env \<Rightarrow> config \<Rightarrow> dependency \<Rightarrow> run \<Rightarrow> world \<Rightarrow> (error + run) \<times> world" where
  "downloadCheck E config dep r w =
     (if enableDownloadCheck config \<and> name dep \<notin> checkedPackageDownloads r
      then (case lookupDownloads E (name dep) r w of
              (Inl e, w1) \<Rightarrow> (Inl e, w1)
            | (Inr downloads, w1) \<Rightarrow>
                (Inr (noteDownloads (downloadsProblem E) config dep downloads r), w1))
      else (Inr r, w))"

definition downloadCheck_p2 ::
  "env \<Rightarrow> config \<Rightarrow> dependency \<Rightarrow> run \<Rightarrow> world \<Rightarrow> (error + run) \<times> world" where
  "downloadCheck_p2 E config dep r w =
     (if enableDownloadCheck config \<and> name dep \<notin> checkedPackageDownloads r
      then (case lookupDownloads_p2 E (name dep) r w of
              (downloads, w1) \<Rightarrow>
                (Inr (noteDownloads (downloadsProblem_p2 E) config dep downloads r), w1))
      else (Inr r, w))"

definition perDependency ::
  "env \<Rightarrow> config \<Rightarrow> dependency \<Rightarrow> run \<Rightarrow> world \<Rightarrow> (error + run) \<times> world" where
  "perDependency E config dep r w =
     (case checkPackage E config (name dep) (version dep) w of
        (p, w1) \<Rightarrow> downloadCheck E config dep (r\<lparr>warnings := warnings r @ p\<rparr>) w1)"

definition perDependency_p2 ::
  "env \<Rightarrow> config \<Rightarrow> dependency \<Rightarrow> run \<Rightarrow> world \<Rightarrow> (error + run) \<times> world" where
  "perDependency_p2 E config dep r w =
     (case processLocalPackageJson_p2 E config dep w of
        Inl e \<Rightarrow> (Inl e, w)
      | Inr jsonWarnings \<Rightarrow>
          (case (if minPackageAge config \<noteq> 0 \<and> minPackageAge config > 0
                 then checkPackageAge_p2 E (minPackageAge config) (name dep) (version dep) w
                 else (None, w)) of
             (ageWarning, w1) \<Rightarrow>
               downloadCheck_p2 E config dep
                 (r\<lparr>warnings := warnings r @ jsonWarnings
                                  @ (case ageWarning of None \<Rightarrow> [] | Some a \<Rightarrow> [a])\<rparr>)
                 w1))"

subsubsection \<open>The callback of \<^verbatim>\<open>slice.map\<close>, from one suspension to the next\<close>

text \<open>
  Where a callback is suspended: at the read of the installed \<^verbatim>\<open>package.json\<close>
  (\<^verbatim>\<open>src/unnamed/part_002\<close> only), at the read of the registry cache file, at the request of
  the registry, at the write of the cache file (with the record to return, in memory, and
  the record to write), at the request of the downloads; or it has returned.  Suspensions
  between which the callback neither reads nor writes anything the callbacks share (the
  response and its body, \<^verbatim>\<open>fs.mkdir\<close> and \<^verbatim>\<open>fs.writeFile\<close>, the return of an inner
  \<^verbatim>\<open>async\<close> function) are taken as one.  A file is read as it is when the read completes,
  and written when the write completes; a request is logged when it is made.
\<close>

datatype pc = AtLocalRead | AtRead | AtFetch | AtWrite json json | AtDownloads | Done

datatype revision = Lib | P2

fun rank :: "pc \<Rightarrow> nat" where
  "rank AtLocalRead = 5"
| "rank AtRead = 4"
| "rank AtFetch = 3"
| "rank (AtWrite data disk) = 2"
| "rank AtDownloads = 1"
| "rank Done = 0"

text \<open>
  The start of \<^verbatim>\<open>cacheRegistry\<close>, up to its first \<^verbatim>\<open>await\<close>: with a cache file the file is
  read, without one the registry is requested.
\<close>

definition registryBegin :: "string \<Rightarrow> world \<Rightarrow> pc \<times> world" where
  "registryBegin packageName w =
     (if registryFiles w packageName \<noteq> Absent then (AtRead, w)
      else (AtFetch, emit (GET (registryUrl packageName)) w))"

text \<open>
  The download check of the callback, up to its \<^verbatim>\<open>await\<close> or, when the cache has a truthy
  value for the name, to its end.
\<close>

definition problemOf :: "revision \<Rightarrow> env \<Rightarrow> config \<Rightarrow> dependency \<Rightarrow> int \<Rightarrow> warning" where
  "problemOf rv E = (case rv of Lib \<Rightarrow> downloadsProblem E | P2 \<Rightarrow> downloadsProblem_p2 E)"

definition downloadsBegin ::
  "revision \<Rightarrow> env \<Rightarrow> config \<Rightarrow> dependency \<Rightarrow> run \<Rightarrow> world \<Rightarrow> (error + pc \<times> run) \<times> world" where
  "downloadsBegin rv E config dep r w =
     (if enableDownloadCheck config \<and> name dep \<notin> checkedPackageDownloads r
      then (case cachedDownloads (packageDownloadCache r) (name dep) of
              Some downloads \<Rightarrow>
                if truthyCached (Some downloads)
                then (Inr (Done, noteDownloads (problemOf rv E) config dep downloads r), w)
                else (Inr (AtDownloads, r), emit (GET (downloadsUrl (name dep))) w)
            | None \<Rightarrow> (Inr (AtDownloads, r), emit (GET (downloadsUrl (name dep))) w))
      else (Inr (Done, r), w))"

text \<open>
  The download check once the response is there.  In \<^verbatim>\<open>src/lib\<close> a failed lookup is a
  throw of the callback; in \<^verbatim>\<open>src/unnamed\<close> it is the value \<open>-1\<close>.
\<close>

definition downloadsEnd ::
  "revision \<Rightarrow> env \<Rightarrow> config \<Rightarrow> dependency \<Rightarrow> run \<Rightarrow> world \<Rightarrow> (error + pc \<times> run) \<times> world" where
  "downloadsEnd rv E config dep r w =
     (case rv of
        Lib \<Rightarrow>
          (case downloadsResult E (name dep) of
             Inl e \<Rightarrow> (Inl e, w)
           | Inr n \<Rightarrow> (Inr (Done, noteDownloads (problemOf Lib E) config dep (Count n) r), w))
      | P2 \<Rightarrow>
          (Inr (Done, noteDownloads (problemOf P2 E) config dep
                        (Count (downloadsResult_p2 E (name dep))) r), w))"

text \<open>
  What the callback does with the record of the registry, or with the failure to get one
  (\<open>None\<close>): it pushes the problems found (\<^verbatim>\<open>src/lib\<close>: those of \<^verbatim>\<open>checkPackage\<close>;
  \<^verbatim>\<open>src/unnamed\<close>: the age warning, if any) and goes on to the download check.
\<close>

definition problemsOf ::
  "revision \<Rightarrow> env \<Rightarrow> config \<Rightarrow> dependency \<Rightarrow> json option \<Rightarrow> warning list" where
  "problemsOf rv E config dep json =
     (case json of
        None \<Rightarrow> []
      | Some j \<Rightarrow>
          (case rv of
             Lib \<Rightarrow> evaluate E config (name dep) (version dep) j
           | P2 \<Rightarrow>
               (case ageWarning_p2 E (minPackageAge config) (name dep) (version dep) j of
                  None \<Rightarrow> []
                | Some a \<Rightarrow> [a])))"

definition afterRegistry ::
  "revision \<Rightarrow> env \<Rightarrow> config \<Rightarrow> dependency \<Rightarrow> json option \<Rightarrow> run \<Rightarrow> world
     \<Rightarrow> (error + pc \<times> run) \<times> world" where
  "afterRegistry rv E config dep json r w =
     downloadsBegin rv E config dep
       (r\<lparr>warnings := warnings r @ problemsOf rv E config dep json\<rparr>) w"

text \<open>
  The start of the callback in \<^verbatim>\<open>src/unnamed/part_002\<close> once the installed \<^verbatim>\<open>package.json\<close>
  is read: its warnings are pushed, and the age is checked only with a positive
  \<^verbatim>\<open>minPackageAge\<close>.
\<close>

definition afterLocalRead ::
  "env \<Rightarrow> config \<Rightarrow> dependency \<Rightarrow> run \<Rightarrow> world \<Rightarrow> (error + pc \<times> run) \<times> world" where
  "afterLocalRead E config dep r w =
     (case processLocalPackageJson_p2 E config dep w of
        Inl e \<Rightarrow> (Inl e, w)
      | Inr jsonWarnings \<Rightarrow>
          let r1 = r\<lparr>warnings := warnings r @ jsonWarnings\<rparr> in
          if minPackageAge config \<noteq> 0 \<and> minPackageAge config > 0
          then (case registryBegin (name dep) w of (pc, w1) \<Rightarrow> (Inr (pc, r1), w1))
          else downloadsBegin P2 E config dep r1 w)"

text \<open>
  One resumption of a callback: from the suspension \<open>pc\<close> to the next one, to the return, or
  to a throw.
\<close>

definition look :: "revision \<Rightarrow> env \<Rightarrow> json \<Rightarrow> string \<Rightarrow> error + json option" where
  "look rv = (case rv of Lib \<Rightarrow> tryCache | P2 \<Rightarrow> tryCache_p2)"

definition build :: "revision \<Rightarrow> json \<Rightarrow> error + json \<times> json" where
  "build rv = (case rv of Lib \<Rightarrow> requiredData | P2 \<Rightarrow> requiredData_p2)"

fun resume ::
  "revision \<Rightarrow> env \<Rightarrow> config \<Rightarrow> dependency \<Rightarrow> pc \<Rightarrow> run \<Rightarrow> world
     \<Rightarrow> (error + pc \<times> run) \<times> world" where
  "resume rv E config dep AtLocalRead r w = afterLocalRead E config dep r w"
| "resume rv E config dep AtRead r w =
     (case cacheHit (look rv) E (name dep) (version dep) w of
        Some cache \<Rightarrow> afterRegistry rv E config dep (Some cache) r w
      | None \<Rightarrow> (Inr (AtFetch, r), emit (GET (registryUrl (name dep))) w))"
| "resume rv E config dep AtFetch r w =
     (case fetched (build rv) E (name dep) (version dep) of
        Inl e \<Rightarrow> afterRegistry rv E config dep None r w
      | Inr (data, disk) \<Rightarrow> (Inr (AtWrite data disk, r), w))"
| "resume rv E config dep (AtWrite data disk) r w =
     afterRegistry rv E config dep (Some data) r (writeCache E (name dep) disk w)"
| "resume rv E config dep AtDownloads r w = downloadsEnd rv E config dep r w"
| "resume rv E config dep Done r w = (Inr (Done, r), w)"

text \<open>
  The start of a callback, up to its first \<^verbatim>\<open>await\<close>: \<^verbatim>\<open>src/lib\<close> enters \<^verbatim>\<open>checkPackage\<close>
  and \<^verbatim>\<open>cacheRegistry\<close>, \<^verbatim>\<open>src/unnamed\<close> starts the read of the installed \<^verbatim>\<open>package.json\<close>.
  \<^verbatim>\<open>slice.map\<close> starts the callbacks of a batch one after the other.
\<close>

definition begin_callback :: "revision \<Rightarrow> dependency \<Rightarrow> world \<Rightarrow> pc \<times> world" where
  "begin_callback rv dep w =
     (case rv of Lib \<Rightarrow> registryBegin (name dep) w | P2 \<Rightarrow> (AtLocalRead, w))"

fun startBatch ::
  "revision \<Rightarrow> dependency list \<Rightarrow> world \<Rightarrow> (dependency \<times> pc) list \<times> world" where
  "startBatch rv [] w = ([], w)"
| "startBatch rv (dep # deps) w =
     (case begin_callback rv dep w of
        (pc, w1) \<Rightarrow>
          (case startBatch rv deps w1 of
             (tasks, w2) \<Rightarrow> ((dep, pc) # tasks, w2)))"

subsubsection \<open>\<^verbatim>\<open>Promise.all\<close> over a batch\<close>

text \<open>
  The callbacks that have not returned, by position, and the one the schedule resumes
  next.
\<close>

definition pending :: "(dependency \<times> pc) list \<Rightarrow> nat list" where
  "pending tasks = filter (\<lambda>i. snd (tasks ! i) \<noteq> Done) [0 ..< length tasks]"

definition pick :: "nat list \<Rightarrow> nat list \<Rightarrow> nat" where
  "pick sched ps = (case sched of [] \<Rightarrow> hd ps | k # ks \<Rightarrow> ps ! (k mod length ps))"

text \<open>
  \<^verbatim>\<open>await Promise.all(...)\<close>: callbacks are resumed, one at a time, until all have returned;
  the first throw of a callback is the throw of \<^verbatim>\<open>Promise.all\<close>, and of \<^verbatim>\<open>processRepo\<close>,
  and the world of the result is the world at that throw.  The result comes with the rest
  of the schedule.
\<close>

function runBatch ::
  "revision \<Rightarrow> env \<Rightarrow> config \<Rightarrow> nat list \<Rightarrow> (dependency \<times> pc) list \<Rightarrow> run \<Rightarrow> world
     \<Rightarrow> ((error + run) \<times> world) \<times> nat list" where
  "runBatch rv E config sched tasks r w =
     (if pending tasks = [] then ((Inr r, w), sched)
      else
        let i = pick sched (pending tasks) in
        case resume rv E config (fst (tasks ! i)) (snd (tasks ! i)) r w of
          (Inl e, w1) \<Rightarrow> ((Inl e, w1), tl sched)
        | (Inr (pc, r1), w1) \<Rightarrow>
            runBatch rv E config (tl sched) (tasks[i := (fst (tasks ! i), pc)]) r1 w1)"
  by pat_completeness auto
termination
proof (relation "measure (\<lambda>(rv, E, config, sched, tasks, r, w).
                   sum_list (map (\<lambda>t. rank (snd t)) tasks))", goal_cases)
  case 1
  show ?case by simp
next
  case (2 rv E config sched tasks r w i res w1 x pc r1)
  have "pick sched (pending tasks) \<in> set (pending tasks)"
    using 2(1) by (cases sched) (simp_all add: pick_def)
  with 2(2) have i: "i < length tasks" "snd (tasks ! i) \<noteq> Done"
    by (simp_all add: pending_def)
  have low: "rank q \<le> 1"
    if "downloadsBegin rv E config d s u = (Inr (q, s1), u1)" for d s u q s1 u1
    using that by (auto simp: downloadsBegin_def split: if_splits option.splits)
  have reg: "rank q \<le> 4 \<and> 3 \<le> rank q" if "registryBegin nm u = (q, u1)" for nm u q u1
    using that by (auto simp: registryBegin_def split: if_splits)
  from 2(3,4,5)
  have res: "resume rv E config (fst (tasks ! i)) (snd (tasks ! i)) r w = (Inr (pc, r1), w1)"
    by simp
  have "rank pc < rank (snd (tasks ! i))"
  proof (cases "snd (tasks ! i)")
    case AtLocalRead
    with res have "rank pc \<le> 4"
      by (auto simp: afterLocalRead_def downloadsBegin_def registryBegin_def Let_def
               split: sum.splits if_splits prod.splits option.splits)
    with AtLocalRead show ?thesis by simp
  next
    case AtRead
    with res have "rank pc \<le> 3"
      by (auto simp: afterRegistry_def downloadsBegin_def split: option.splits if_splits)
    with AtRead show ?thesis by simp
  next
    case AtFetch
    with res have "rank pc \<le> 2"
      by (auto simp: afterRegistry_def downloadsBegin_def
               split: sum.splits prod.splits option.splits if_splits)
    with AtFetch show ?thesis by simp
  next
    case (AtWrite d k)
    with res have "rank pc \<le> 1"
      by (auto simp: afterRegistry_def dest: low)
    with AtWrite show ?thesis by simp
  next
    case AtDownloads
    with res have "rank pc = 0"
      by (auto simp: downloadsEnd_def split: revision.splits sum.splits)
    with AtDownloads show ?thesis by simp
  next
    case Done
    with i(2) show ?thesis by simp
  qed
  moreover have "sum_list (map (\<lambda>t. rank (snd t)) (ts[k := (d, q)]))
                   < sum_list (map (\<lambda>t. rank (snd t)) ts)"
    if "k < length ts" "rank q < rank (snd (ts ! k))" for ts :: "(dependency \<times> pc) list" and k d q
    using that
  proof (induction ts arbitrary: k)
    case Nil
    then show ?case by simp
  next
    case (Cons t ts)
    then show ?case by (cases k) auto
  qed
  ultimately show ?case using i(1) by simp
qed

declare runBatch.simps [simp del]

text \<open>
  The loop \<^verbatim>\<open>for (let i = 0; i < deps.length; i += batchSize)\<close> with its slices, each
  awaited before the next is started.
\<close>

definition batchSize :: nat where
  "batchSize = 32"

function slices :: "dependency list \<Rightarrow> nat \<Rightarrow> dependency list list" where
  "slices deps i =
     (if i < length deps then take batchSize (drop i deps) # slices deps (i + batchSize)
      else [])"
  by pat_completeness auto
termination
  by (relation "measure (\<lambda>(deps, i). length deps - i)") (auto simp: batchSize_def)

declare slices.simps [simp del]

fun forEachBatch ::
  "revision \<Rightarrow> env \<Rightarrow> config \<Rightarrow> nat list \<Rightarrow> dependency list list \<Rightarrow> run \<Rightarrow> world
     \<Rightarrow> (error + run) \<times> world" where
  "forEachBatch rv E config sched [] r w = (Inr r, w)"
| "forEachBatch rv E config sched (slice # rest) r w =
     (case startBatch rv slice w of
        (tasks, w0) \<Rightarrow>
          (case runBatch rv E config sched tasks r w0 of
             ((Inl e, w1), sched1) \<Rightarrow> (Inl e, w1)
           | ((Inr r1, w1), sched1) \<Rightarrow> forEachBatch rv E config sched1 rest r1 w1))"

subsection \<open>\<^verbatim>\<open>processRepo\<close>\<close>

datatype outcome = Returned | Exit nat | Threw error

definition readWarningsFromLockfile :: "world \<Rightarrow> error + entry list" where
  "readWarningsFromLockfile w =
     (case policyLockFile w of
        Absent \<Rightarrow> Inr []
      | Corrupt \<Rightarrow> Inl SyntaxError
      | Content data \<Rightarrow> if lock_version data \<noteq> 1 then Inr [] else Inr (lock_packages data))"

text \<open>
  \<^verbatim>\<open>read({prompt: 'Continue? [y/n]', default: 'y'})\<close>: it resolves to the line entered, or
  to the default when the line is empty, and rejects when the prompt is cancelled.
\<close>

definition read :: "env \<Rightarrow> string \<Rightarrow> error + string" where
  "read E dflt =
     (case line E of
        Inl e \<Rightarrow> Inl e
      | Inr entered \<Rightarrow> Inr (if entered = [] then dflt else entered))"

text \<open>
  The end of \<^verbatim>\<open>processRepo\<close>: nothing to approve returns; \<^verbatim>\<open>--ci\<close> exits with 1; otherwise
  the prompt is shown (a rejected \<^verbatim>\<open>read\<close> is a throw), \<^verbatim>\<open>'y'\<close> writes
  \<^verbatim>\<open>{version: 1, packages: cacheData}\<close> (a failure of \<^verbatim>\<open>fs.writeFile\<close> is a throw) and
  anything else exits with 1.
\<close>

definition decide :: "env \<Rightarrow> entry list \<Rightarrow> warning list \<Rightarrow> world \<Rightarrow> outcome \<times> world" where
  "decide E cacheData ws w =
     (if length ws = 0 then (Returned, w)
      else if opt_ci E then (Exit 1, w)
      else
        let w1 = emit Prompt w in
        case read E ''y'' of
          Inl e \<Rightarrow> (Threw e, w1)
        | Inr result \<Rightarrow>
            if result = ''y''
            then (if writable E WriteApproval
                  then (Returned,
                        emit WriteApproval
                          (w1\<lparr>policyLockFile :=
                                Content \<lparr>lock_version = 1, lock_packages = cacheData\<rparr>\<rparr>))
                  else (Threw IOError, w1))
            else (Exit 1, w1))"

text \<open>
  What follows the loop: index, rebuild, filter, save of the downloads (a failure is a
  throw), decision.
\<close>

definition reconcile :: "env \<Rightarrow> config \<Rightarrow> entry list \<Rightarrow> run \<Rightarrow> world \<Rightarrow> outcome \<times> world" where
  "reconcile E config cacheData r w =
     (let idx = cacheIndex E cacheData;
          cacheData' = rebuild (warnings r);
          ws = unapproved E idx (warnings r)
      in
        case (if enableDownloadCheck config
              then savePackageDownloadCache E (packageDownloadCache r) w else Inr w) of
          Inl e \<Rightarrow> (Threw e, w)
        | Inr w1 \<Rightarrow> decide E cacheData' ws w1)"

definition processRepoWith ::
  "revision \<Rightarrow> (env \<Rightarrow> config \<Rightarrow> world \<Rightarrow> error + dependency list)
     \<Rightarrow> env \<Rightarrow> config \<Rightarrow> world \<Rightarrow> outcome \<times> world" where
  "processRepoWith rv reader E config w =
     (case readWarningsFromLockfile w of
        Inl e \<Rightarrow> (Threw e, w)
      | Inr cacheData \<Rightarrow>
          (case reader E config w of
             Inl e \<Rightarrow> (Threw e, w)
           | Inr deps \<Rightarrow>
               (case getPackageDownloadCache w of
                  Inl e \<Rightarrow> (Threw e, w)
                | Inr cache \<Rightarrow>
                    (case forEachBatch rv E config (schedule E) (slices deps 0)
                            \<lparr>warnings = [], packageDownloadCache = cache,
                             checkedPackageDownloads = {}\<rparr> w of
                       (Inl e, w1) \<Rightarrow> (Threw e, w1)
                     | (Inr r, w1) \<Rightarrow> reconcile E config cacheData r w1))))"

definition processRepo :: "env \<Rightarrow> config \<Rightarrow> world \<Rightarrow> outcome \<times> world" where
  "processRepo = processRepoWith Lib readInstalledPackagesFromLockfile"

definition processRepo_p2 :: "env \<Rightarrow> config \<Rightarrow> world \<Rightarrow> outcome \<times> world" where
  "processRepo_p2 = processRepoWith P2 readInstalledPackagesFromLockfile_p2"

subsection \<open>A small repository, for the examples\<close>

definition demoConfig :: config where
  "demoConfig =
     \<lparr>minPackageAge = 172800000, minWeeklyDownloads = 100, licenses = [''ISC''],
      blacklist = [(''evil'', ''*'')], ignore = [(''react'', ''16.13.1'')]\<rparr>"

definition demoDoc :: json where
  "demoDoc =
     JObj [(''name'', JStr ''foo''),
           (''versions'',
              JObj [(''0.9.0'', JObj [(''license'', JStr ''ISC'')]),
                    (''1.0.0'', JObj [(''license'', JStr ''MIT''),
                                     (''scripts'', JObj [(''postinstall'', JStr ''node x.js''),
                                                         (''test'', JStr ''tap'')])])]),
           (''time'',
              JObj [(''0.9.0'', JStr ''2020-01-01T00:00:00.000Z''),
                    (''1.0.0'', JStr ''2024-06-01T00:00:00.000Z'')])]"

text \<open>
  The registry knows \<^verbatim>\<open>foo\<close>, which had 42 downloads last week; \<open>satisfies\<close> stands in for
  \<^verbatim>\<open>semver\<close> on the ranges of the examples, \<^verbatim>\<open>*\<close> and exact versions; every write succeeds;
  the line entered at the prompt is \<^verbatim>\<open>y\<close>; the schedule is empty, so each callback of a
  batch runs to its end before the next is resumed.
\<close>

definition demoEnv :: env where
  "demoEnv =
     \<lparr>opt_ci = False,
      dir = ''/repo'',
      satisfies = (\<lambda>v r. r = ''*'' \<or> v = r),
      http = (\<lambda>url.
        if url = registryUrl ''foo'' then Response 200 ''OK'' (Some demoDoc)
        else if url = downloadsUrl ''foo''
          then Response 200 ''OK'' (Some (JObj [(''downloads'', JNum 42)]))
        else NoResponse),
      now = 1717286400000,
      getTime = (\<lambda>t.
        if t = JStr ''2024-06-01T00:00:00.000Z'' then Some 1717200000000
        else if t = JStr ''2020-01-01T00:00:00.000Z'' then Some 1577836800000
        else None),
      writable = (\<lambda>e. True),
      line = Inr ''y'',
      numberToString = (\<lambda>n. ''Infinity''),
      methodOf = (\<lambda>v k. False),
      schedule = []\<rparr>"

definition demoWorld :: world where
  "demoWorld =
     \<lparr>packageLockJson =
        Content
          [([], \<lparr>spec_name = Some ''demo'', spec_version = ''0.0.1'', spec_license = None,
                 spec_link = False, spec_optional = False\<rparr>),
           (''node_modules/foo'',
              \<lparr>spec_name = None, spec_version = ''1.0.0'', spec_license = Some ''MIT'',
               spec_link = False, spec_optional = False\<rparr>),
           (''node_modules/bar/node_modules/foo'',
              \<lparr>spec_name = None, spec_version = ''1.0.0'', spec_license = Some ''MIT'',
               spec_link = False, spec_optional = False\<rparr>)],
      yarnLock = False, pnpmLock = False,
      policyLockFile = Absent,
      registryFiles = (\<lambda>nm. Absent),
      downloadsFile = Absent,
      localPackageJson = (\<lambda>p. Absent),
      events = []\<rparr>"

definition entryOf :: "string \<Rightarrow> bool \<Rightarrow> bool \<Rightarrow> spec" where
  "entryOf v l opt =
     \<lparr>spec_name = None, spec_version = v, spec_license = None, spec_link = l,
      spec_optional = opt\<rparr>"

definition demoLock :: "(string \<times> spec) list" where
  "demoLock =
     [([], entryOf ''0.0.1'' False False),
      (''node_modules/zed'', entryOf ''2.0.0'' False False),
      (''node_modules/foo'', entryOf ''1.0.0'' False False),
      (''node_modules/bar/node_modules/foo'', entryOf ''1.0.0'' False False),
      (''node_modules/react'', entryOf ''16.13.1'' False False),
      (''node_modules/@babel/core'', entryOf ''7.0.0'' False False),
      (''node_modules/ws'', entryOf ''1.0.0'' True False),
      (''node_modules/fsevents'', entryOf ''2.3.3'' False True)]"

text \<open>The same environment with the downloads API out of reach.\<close>

definition demoEnvDown :: env where
  "demoEnvDown =
     demoEnv\<lparr>http := (\<lambda>url.
        if url = registryUrl ''foo'' then Response 200 ''OK'' (Some demoDoc) else NoResponse)\<rparr>"

text \<open>The same environment with a downloads API that answers without a count.\<close>

definition demoEnvBad :: env where
  "demoEnvBad =
     demoEnv\<lparr>http := (\<lambda>url.
        if url = registryUrl ''foo'' then Response 200 ''OK'' (Some demoDoc)
        else Response 404 ''Not Found''
               (Some (JObj [(''error'', JStr ''package foo not found'')])))\<rparr>"

definition freshRun :: run where
  "freshRun =
     \<lparr>warnings = [], packageDownloadCache = Map.empty, checkedPackageDownloads = {}\<rparr>"

text \<open>A stored record of \<^verbatim>\<open>foo\<close> with one version, in the layout of each revision.\<close>

definition demoRecord :: json where
  "demoRecord =
     JObj [(''_version'', JNum 1),
           (''time'', JObj [(''1.0.0'', JStr ''2024-06-01T00:00:00.000Z'')]),
           (''versions'', JObj [(''1.0.0'', JObj [(''license'', JStr ''MIT'')])])]"

definition demoRecord_p2 :: json where
  "demoRecord_p2 =
     JObj [(''_version'', JNum 1),
           (''time'', JObj [(''1.0.0'', JStr ''2024-06-01T00:00:00.000Z'')]),
           (''versions'', JArr [JStr ''1.0.0''])]"

definition demoWorldCached :: world where
  "demoWorldCached =
     demoWorld\<lparr>registryFiles := (\<lambda>nm. if nm = ''foo'' then Content demoRecord else Absent)\<rparr>"

definition demoWorldCached_p2 :: world where
  "demoWorldCached_p2 =
     demoWorld\<lparr>registryFiles := (\<lambda>nm. if nm = ''foo'' then Content demoRecord_p2 else Absent)\<rparr>"

definition demoDep :: dependency where
  "demoDep =
     \<lparr>name = ''foo'', path = ''node_modules/foo'', version = ''1.0.0'', license = Some ''MIT''\<rparr>"

definition demoWarning :: warning where
  "demoWarning =
     \<lparr>package = ''foo@1.0.0'', message = ''has license MIT which is not in the whitelist'',
      cacheKey = JStr ''MIT'', type = License\<rparr>"

definition demoRun :: run where
  "demoRun =
     \<lparr>warnings = [demoWarning], packageDownloadCache = [''foo'' \<mapsto> Count 0],
      checkedPackageDownloads = {}\<rparr>"

text \<open>
  A repository with one dependency, \<^verbatim>\<open>x@1.0.0-rc1\<close> under the license \<^verbatim>\<open>MIT\<close>, a whitelist
  without \<^verbatim>\<open>MIT\<close>, and an approval record from an earlier run that approved the license
  \<^verbatim>\<open>1MIT\<close> of \<^verbatim>\<open>x@1.0.0-rc\<close>.
\<close>

definition rcConfig :: config where
  "rcConfig =
     \<lparr>minPackageAge = 172800000, minWeeklyDownloads = 0, licenses = [''ISC''],
      blacklist = [], ignore = []\<rparr>"

definition rcEnv :: env where
  "rcEnv =
     demoEnv\<lparr>http := (\<lambda>url.
        if url = registryUrl ''x''
        then Response 200 ''OK''
               (Some (JObj [(''versions'',
                               JObj [(''1.0.0-rc1'', JObj [(''license'', JStr ''MIT'')])]),
                            (''time'',
                               JObj [(''1.0.0-rc1'', JStr ''2020-01-01T00:00:00.000Z'')])]))
        else NoResponse)\<rparr>"

definition rcWorld :: world where
  "rcWorld =
     demoWorld
       \<lparr>packageLockJson := Content [(''node_modules/x'', entryOf ''1.0.0-rc1'' False False)],
        policyLockFile :=
          Content \<lparr>lock_version = 1,
                   lock_packages =
                     [\<lparr>c_package = ''x@1.0.0-rc'', c_type = License,
                       c_cacheKey = JStr ''1MIT''\<rparr>]\<rparr>\<rparr>"

text \<open>A repository whose one dependency is the package \<^verbatim>\<open>constructor\<close>, version 1.0.0.\<close>

definition ctorWorld :: world where
  "ctorWorld =
     demoWorld
       \<lparr>packageLockJson :=
          Content [(''node_modules/constructor'', entryOf ''1.0.0'' False False)]\<rparr>"

text \<open>The repository of \<open>demoWorld\<close> with a downloads cache that holds a count for \<^verbatim>\<open>foo\<close>.\<close>

definition countedWorld :: "int \<Rightarrow> world" where
  "countedWorld n = demoWorld\<lparr>downloadsFile := Content [''foo'' \<mapsto> n]\<rparr>"

subsection \<open>Names used to state the properties\<close>

text \<open>
  A count \<open>n\<close> is \<^emph>\<open>measured\<close> for a name when it is the count the downloads cache had for
  the name at the start of the loop, or the count the lookup of the revision answers for
  the name.
\<close>

definition measured ::
  "revision \<Rightarrow> env \<Rightarrow> (string \<rightharpoonup> cached) \<Rightarrow> string \<Rightarrow> int \<Rightarrow> bool" where
  "measured rv E cache0 nm n =
     (cache0 nm = Some (Count n)
      \<or> (case rv of
            Lib \<Rightarrow> downloadsResult E nm = Inr n
          | P2 \<Rightarrow> downloadsResult_p2 E nm = n))"

text \<open>
  The \<^verbatim>\<open>cacheKey\<close> of the low-usage warning: \<^verbatim>\<open>String(config.minWeeklyDownloads)\<close> in
  \<^verbatim>\<open>src/lib/index.ts\<close>, \<^verbatim>\<open>'minWeeklyDownloads=' + config.minWeeklyDownloads\<close> in
  \<^verbatim>\<open>src/unnamed/part_002\<close>.
\<close>

definition lowUsageKey :: "revision \<Rightarrow> env \<Rightarrow> config \<Rightarrow> json" where
  "lowUsageKey rv E config =
     (case rv of
        Lib \<Rightarrow> JStr (toString E (minWeeklyDownloads config))
      | P2 \<Rightarrow> JStr (''minWeeklyDownloads='' @ toString E (minWeeklyDownloads config)))"

text \<open>
  What the loop maintains, whatever the schedule: every count in the cache is measured, and
  every low-usage warning pushed so far belongs to a dependency of the names \<open>D\<close>, has the
  \<^verbatim>\<open>cacheKey\<close> of the revision, and tells a measured count other than \<open>-1\<close> and below the
  threshold.
\<close>

definition lowUsageInv ::
  "revision \<Rightarrow> env \<Rightarrow> config \<Rightarrow> (string \<rightharpoonup> cached) \<Rightarrow> string set \<Rightarrow> run \<Rightarrow> bool" where
  "lowUsageInv rv E config cache0 D r =
     ((\<forall>nm n. packageDownloadCache r nm = Some (Count n) \<longrightarrow> measured rv E cache0 nm n)
      \<and> (\<forall>x \<in> set (warnings r).
            type x = MinWeeklyDownloads \<longrightarrow>
              cacheKey x = lowUsageKey rv E config
              \<and> package x \<in> D
              \<and> (\<exists>n. measured rv E cache0 (package x) n \<and> n \<noteq> - 1
                       \<and> n < minWeeklyDownloads config
                       \<and> message x = ''had '' @ toString E n @ '' downloads last week'')))"

section \<open>Properties\<close>

subsection \<open>Observations on the log and the files\<close>

lemma policyLockFile_emit [simp]: "policyLockFile (emit e w) = policyLockFile w"
  by (simp add: emit_def)

lemma events_emit [simp]: "events (emit e w) = events w @ [e]"
  by (simp add: emit_def)

lemma downloadsFile_emit [simp]: "downloadsFile (emit e w) = downloadsFile w"
  by (simp add: emit_def)

lemma registryFiles_emit [simp]: "registryFiles (emit e w) = registryFiles w"
  by (simp add: emit_def)

subsection \<open>The reconciler\<close>

lemma dom_cacheIndex_aux:
  "dom (foldl (\<lambda>m c. m(indexKey E (c_package c) (c_cacheKey c) (c_type c) \<mapsto> c)) m0 R)
     = dom m0 \<union> (\<lambda>c. indexKey E (c_package c) (c_cacheKey c) (c_type c)) ` set R"
  by (induction R arbitrary: m0) auto

lemma dom_cacheIndex:
  "dom (cacheIndex E R) = (\<lambda>c. indexKey E (c_package c) (c_cacheKey c) (c_type c)) ` set R"
  by (simp add: cacheIndex_def dom_cacheIndex_aux)

text \<open>A warning counts as approved exactly when its index key is the key of a prior entry.\<close>

lemma approved_iff:
  "approved E (cacheIndex E R) x \<longleftrightarrow>
     (\<exists>c \<in> set R. indexKey E (package x) (cacheKey x) (type x)
                      = indexKey E (c_package c) (c_cacheKey c) (c_type c))"
  by (simp add: approved_def dom_cacheIndex image_iff)

text \<open>A warning whose triple is an entry of the prior record is always approved.\<close>

lemma approved_of_member: "toEntry x \<in> set R \<Longrightarrow> approved E (cacheIndex E R) x"
  unfolding approved_iff by (rule bexI [of _ "toEntry x"]) (simp_all add: toEntry_def)

text \<open>
  C1.  The claim: a warning is classified as previously approved if and only if its exact
  triple (package, kind, cacheKey) is an entry of the prior record.  The index key is the
  three strings spliced together with nothing between them, so two different triples can
  have one key.  Here the prior record holds the approved license warning of
  \<^verbatim>\<open>x@1.0.0-rc\<close> with license \<^verbatim>\<open>1MIT\<close>; the new license warning of \<^verbatim>\<open>x@1.0.0-rc1\<close> with
  license \<^verbatim>\<open>MIT\<close> is not in the record, is classified as approved all the same, and
  nothing is left to approve: the run over \<open>rcWorld\<close> returns without a prompt, where the same
  run without the prior record prompts.
\<close>

theorem approved_collision:
  "approved rcEnv
     (cacheIndex rcEnv
        [\<lparr>c_package = ''x@1.0.0-rc'', c_type = License, c_cacheKey = JStr ''1MIT''\<rparr>])
     \<lparr>package = ''x@1.0.0-rc1'', message = ''has license MIT which is not in the whitelist'',
      cacheKey = JStr ''MIT'', type = License\<rparr>
   \<and> toEntry \<lparr>package = ''x@1.0.0-rc1'', message = ''has license MIT which is not in the whitelist'',
      cacheKey = JStr ''MIT'', type = License\<rparr>
     \<notin> set [\<lparr>c_package = ''x@1.0.0-rc'', c_type = License, c_cacheKey = JStr ''1MIT''\<rparr>]
   \<and> unapproved rcEnv
     (cacheIndex rcEnv
        [\<lparr>c_package = ''x@1.0.0-rc'', c_type = License, c_cacheKey = JStr ''1MIT''\<rparr>])
     [\<lparr>package = ''x@1.0.0-rc1'', message = ''has license MIT which is not in the whitelist'',
      cacheKey = JStr ''MIT'', type = License\<rparr>] = []
   \<and> fst (checkPackage rcEnv rcConfig ''x'' ''1.0.0-rc1'' rcWorld)
     = [\<lparr>package = ''x@1.0.0-rc1'', message = ''has license MIT which is not in the whitelist'',
         cacheKey = JStr ''MIT'', type = License\<rparr>]
   \<and> fst (processRepo rcEnv rcConfig rcWorld) = Returned
   \<and> events (snd (processRepo rcEnv rcConfig rcWorld))
     = [GET ''https://registry.npmjs.org/x'', WriteRegistryCache ''x'']
   \<and> fst (processRepo rcEnv rcConfig (rcWorld\<lparr>policyLockFile := Absent\<rparr>)) = Returned
   \<and> events (snd (processRepo rcEnv rcConfig (rcWorld\<lparr>policyLockFile := Absent\<rparr>)))
     = [GET ''https://registry.npmjs.org/x'', WriteRegistryCache ''x'', Prompt, WriteApproval]"
  by code_simp

text \<open>
  C2.  The rebuilt approval record holds exactly the triples (package, type, cacheKey) of
  the collected warnings \<open>W\<close>, each as often as it occurs in \<open>W\<close>; it is sorted ascending by
  package; no entry of the prior record \<open>R\<close> that is not the triple of a warning in \<open>W\<close> is
  in it; and the approval file after the run is either what it was or version 1 with
  exactly this rebuilt record.
\<close>

theorem rebuild_full_replace:
  "mset (rebuild W)
     = mset (map (\<lambda>x. \<lparr>c_package = package x, c_type = type x, c_cacheKey = cacheKey x\<rparr>) W)
   \<and> sorted (map c_package (rebuild W))
   \<and> set (rebuild W)
       \<inter> (set R - (\<lambda>x. \<lparr>c_package = package x, c_type = type x, c_cacheKey = cacheKey x\<rparr>) ` set W)
       = {}
   \<and> (policyLockFile (snd (reconcile E config R r w)) = policyLockFile w
      \<or> policyLockFile (snd (reconcile E config R r w))
          = Content \<lparr>lock_version = 1, lock_packages = rebuild (warnings r)\<rparr>)"
proof (intro conjI)
  have e: "map toEntry W
             = map (\<lambda>x. \<lparr>c_package = package x, c_type = type x, c_cacheKey = cacheKey x\<rparr>) W"
    by (simp add: toEntry_def)
  show "mset (rebuild W)
          = mset (map (\<lambda>x. \<lparr>c_package = package x, c_type = type x, c_cacheKey = cacheKey x\<rparr>) W)"
    by (simp add: rebuild_def e)
  show "sorted (map c_package (rebuild W))"
    by (simp add: rebuild_def)
  have "set (rebuild W)
          = (\<lambda>x. \<lparr>c_package = package x, c_type = type x, c_cacheKey = cacheKey x\<rparr>) ` set W"
    by (simp add: rebuild_def e)
  then show "set (rebuild W)
       \<inter> (set R - (\<lambda>x. \<lparr>c_package = package x, c_type = type x, c_cacheKey = cacheKey x\<rparr>) ` set W)
       = {}"
    by blast
  show "policyLockFile (snd (reconcile E config R r w)) = policyLockFile w
      \<or> policyLockFile (snd (reconcile E config R r w))
          = Content \<lparr>lock_version = 1, lock_packages = rebuild (warnings r)\<rparr>"
    by (auto simp: reconcile_def decide_def Let_def savePackageDownloadCache_def
             split: sum.splits if_splits)
qed

text \<open>
  Two warnings, collected out of order, and a prior record with an entry that no warning
  has any more.
\<close>

theorem rebuild_full_replace_witness:
  "rebuild [demoWarning\<lparr>package := ''zed@2.0.0''\<rparr>, demoWarning]
     = [\<lparr>c_package = ''foo@1.0.0'', c_type = License, c_cacheKey = JStr ''MIT''\<rparr>,
        \<lparr>c_package = ''zed@2.0.0'', c_type = License, c_cacheKey = JStr ''MIT''\<rparr>]
   \<and> \<lparr>c_package = ''gone@1.0.0'', c_type = Script, c_cacheKey = JStr ''install: x''\<rparr>
       \<notin> set (rebuild [demoWarning\<lparr>package := ''zed@2.0.0''\<rparr>, demoWarning])
   \<and> policyLockFile (snd (reconcile demoEnv demoConfig
         [\<lparr>c_package = ''gone@1.0.0'', c_type = Script, c_cacheKey = JStr ''install: x''\<rparr>]
         (demoRun\<lparr>warnings := [demoWarning\<lparr>package := ''zed@2.0.0''\<rparr>, demoWarning]\<rparr>)
         demoWorld))
       = Content \<lparr>lock_version = 1,
                  lock_packages =
                    [\<lparr>c_package = ''foo@1.0.0'', c_type = License, c_cacheKey = JStr ''MIT''\<rparr>,
                     \<lparr>c_package = ''zed@2.0.0'', c_type = License, c_cacheKey = JStr ''MIT''\<rparr>]\<rparr>"
  using rebuild_full_replace [where W = "[demoWarning\<lparr>package := ''zed@2.0.0''\<rparr>, demoWarning]"
          and R = "[\<lparr>c_package = ''gone@1.0.0'', c_type = Script, c_cacheKey = JStr ''install: x''\<rparr>]"
          and E = demoEnv and config = demoConfig
          and r = "demoRun\<lparr>warnings := [demoWarning\<lparr>package := ''zed@2.0.0''\<rparr>, demoWarning]\<rparr>"
          and w = demoWorld]
  by (simp add: rebuild_def toEntry_def demoWarning_def demoRun_def demoEnv_def demoConfig_def
        demoWorld_def reconcile_def decide_def read_def unapproved_def approved_def
        cacheIndex_def indexKey_def enableDownloadCheck_def savePackageDownloadCache_def
        emit_def)

text \<open>
  C7 as stated fails: the prompt is asked with the default \<^verbatim>\<open>y\<close>, so an empty line, which
  is no explicit accept, persists the rebuilt record and the run returns.
\<close>

theorem empty_answer_accepts:
  "line (demoEnv\<lparr>line := Inr []\<rparr>) \<noteq> Inr ''y''
   \<and> fst (reconcile (demoEnv\<lparr>line := Inr []\<rparr>) demoConfig [] demoRun demoWorld) = Returned
   \<and> events (snd (reconcile (demoEnv\<lparr>line := Inr []\<rparr>) demoConfig [] demoRun demoWorld))
        = [WriteDownloads, Prompt, WriteApproval]
   \<and> policyLockFile (snd (reconcile (demoEnv\<lparr>line := Inr []\<rparr>) demoConfig [] demoRun demoWorld))
        = Content \<lparr>lock_version = 1, lock_packages = [toEntry demoWarning]\<rparr>
   \<and> fst (processRepo (demoEnv\<lparr>line := Inr []\<rparr>) demoConfig demoWorld) = Returned
   \<and> last (events (snd (processRepo (demoEnv\<lparr>line := Inr []\<rparr>) demoConfig demoWorld)))
        = WriteApproval"
  by code_simp

text \<open>
  C7, as the code has it.  Once the downloads cache is saved (\<open>sv\<close>; the save is attempted
  when the download check is enabled, and a failure of it is not covered here), after the
  filter \<open>ws\<close> of the collected warnings against the prior record \<open>R\<close>: with nothing left the
  run returns, without prompt and without a write of the approval file; with something left
  in CI mode it exits with 1, again without prompt or write; otherwise the prompt is shown,
  and the rebuilt record is written, and the run returns, exactly when the line entered is
  \<^verbatim>\<open>y\<close> or empty, the default being \<^verbatim>\<open>y\<close> (a write that fails is a throw and leaves the
  file as it was); any other line exits with 1 and leaves the file as it was, and a
  cancelled prompt is a throw that leaves the file as it was.
\<close>

theorem decide_after_filter:
  assumes "ws = unapproved E (cacheIndex E R) (warnings r)"
      and "enableDownloadCheck config \<longrightarrow> writable E WriteDownloads"
      and "sv = (if enableDownloadCheck config then [WriteDownloads] else [])"
      and "reconcile E config R r w = (out, w')"
  shows "(ws = [] \<longrightarrow>
            out = Returned \<and> events w' = events w @ sv
            \<and> policyLockFile w' = policyLockFile w)
       \<and> (ws \<noteq> [] \<and> opt_ci E \<longrightarrow>
            out = Exit 1 \<and> events w' = events w @ sv
            \<and> policyLockFile w' = policyLockFile w)
       \<and> (ws \<noteq> [] \<and> \<not> opt_ci E \<and> (line E = Inr ''y'' \<or> line E = Inr [])
            \<and> writable E WriteApproval \<longrightarrow>
            out = Returned \<and> events w' = events w @ sv @ [Prompt, WriteApproval]
            \<and> policyLockFile w' =
                Content \<lparr>lock_version = 1, lock_packages = rebuild (warnings r)\<rparr>)
       \<and> (ws \<noteq> [] \<and> \<not> opt_ci E \<and> (line E = Inr ''y'' \<or> line E = Inr [])
            \<and> \<not> writable E WriteApproval \<longrightarrow>
            out = Threw IOError \<and> events w' = events w @ sv @ [Prompt]
            \<and> policyLockFile w' = policyLockFile w)
       \<and> (\<forall>entered. ws \<noteq> [] \<and> \<not> opt_ci E \<and> line E = Inr entered
            \<and> entered \<noteq> ''y'' \<and> entered \<noteq> [] \<longrightarrow>
            out = Exit 1 \<and> events w' = events w @ sv @ [Prompt]
            \<and> policyLockFile w' = policyLockFile w)
       \<and> (\<forall>e. ws \<noteq> [] \<and> \<not> opt_ci E \<and> line E = Inl e \<longrightarrow>
            out = Threw e \<and> events w' = events w @ sv @ [Prompt]
            \<and> policyLockFile w' = policyLockFile w)"
proof (cases "enableDownloadCheck config")
  case True
  with assms(2) have s: "savePackageDownloadCache E (packageDownloadCache r) w
      = Inr (emit WriteDownloads (w\<lparr>downloadsFile := Content (counts (packageDownloadCache r))\<rparr>))"
    by (simp add: savePackageDownloadCache_def)
  from assms(1,3,4) True s show ?thesis
    by (auto simp: reconcile_def decide_def read_def Let_def split: if_splits sum.splits)
next
  case False
  with assms(1,3,4) show ?thesis
    by (auto simp: reconcile_def decide_def read_def Let_def split: if_splits sum.splits)
qed

text \<open>
  Nothing left to approve; CI mode; the answers \<^verbatim>\<open>y\<close>, empty and \<^verbatim>\<open>no\<close>; a cancelled
  prompt; and an approval file that cannot be written.
\<close>

theorem decide_after_filter_witness:
  "fst (reconcile demoEnv demoConfig [toEntry demoWarning] demoRun demoWorld) = Returned
   \<and> events (snd (reconcile demoEnv demoConfig [toEntry demoWarning] demoRun demoWorld))
        = [WriteDownloads]
   \<and> policyLockFile (snd (reconcile demoEnv demoConfig [toEntry demoWarning] demoRun demoWorld))
        = Absent
   \<and> fst (reconcile (demoEnv\<lparr>opt_ci := True\<rparr>) demoConfig [] demoRun demoWorld) = Exit 1
   \<and> events (snd (reconcile (demoEnv\<lparr>opt_ci := True\<rparr>) demoConfig [] demoRun demoWorld))
        = [WriteDownloads]
   \<and> policyLockFile (snd (reconcile (demoEnv\<lparr>opt_ci := True\<rparr>) demoConfig [] demoRun demoWorld))
        = Absent
   \<and> fst (reconcile demoEnv demoConfig [] demoRun demoWorld) = Returned
   \<and> events (snd (reconcile demoEnv demoConfig [] demoRun demoWorld))
        = [WriteDownloads, Prompt, WriteApproval]
   \<and> policyLockFile (snd (reconcile demoEnv demoConfig [] demoRun demoWorld))
        = Content \<lparr>lock_version = 1, lock_packages = [toEntry demoWarning]\<rparr>
   \<and> fst (reconcile (demoEnv\<lparr>line := Inr []\<rparr>) demoConfig [] demoRun demoWorld) = Returned
   \<and> policyLockFile (snd (reconcile (demoEnv\<lparr>line := Inr []\<rparr>) demoConfig [] demoRun demoWorld))
        = Content \<lparr>lock_version = 1, lock_packages = [toEntry demoWarning]\<rparr>
   \<and> fst (reconcile (demoEnv\<lparr>line := Inr ''no''\<rparr>) demoConfig [] demoRun demoWorld) = Exit 1
   \<and> events (snd (reconcile (demoEnv\<lparr>line := Inr ''no''\<rparr>) demoConfig [] demoRun demoWorld))
        = [WriteDownloads, Prompt]
   \<and> policyLockFile (snd (reconcile (demoEnv\<lparr>line := Inr ''no''\<rparr>) demoConfig [] demoRun demoWorld))
        = Absent
   \<and> fst (reconcile (demoEnv\<lparr>line := Inl (Error ''canceled'')\<rparr>) demoConfig [] demoRun demoWorld)
        = Threw (Error ''canceled'')
   \<and> fst (reconcile (demoEnv\<lparr>writable := (\<lambda>e. e \<noteq> WriteApproval)\<rparr>) demoConfig [] demoRun
            demoWorld) = Threw IOError
   \<and> policyLockFile (snd (reconcile (demoEnv\<lparr>writable := (\<lambda>e. e \<noteq> WriteApproval)\<rparr>) demoConfig []
            demoRun demoWorld)) = Absent"
  using decide_after_filter [where E = "demoEnv" and config = demoConfig and R = "[toEntry demoWarning]"
          and r = demoRun and w = demoWorld, OF refl _ refl prod.collapse [symmetric]]
        decide_after_filter [where E = "demoEnv\<lparr>opt_ci := True\<rparr>" and config = demoConfig and R = "[]"
          and r = demoRun and w = demoWorld, OF refl _ refl prod.collapse [symmetric]]
        decide_after_filter [where E = "demoEnv" and config = demoConfig and R = "[]"
          and r = demoRun and w = demoWorld, OF refl _ refl prod.collapse [symmetric]]
        decide_after_filter [where E = "demoEnv\<lparr>line := Inr []\<rparr>" and config = demoConfig and R = "[]"
          and r = demoRun and w = demoWorld, OF refl _ refl prod.collapse [symmetric]]
        decide_after_filter [where E = "demoEnv\<lparr>line := Inr ''no''\<rparr>" and config = demoConfig and R = "[]"
          and r = demoRun and w = demoWorld, OF refl _ refl prod.collapse [symmetric]]
        decide_after_filter [where E = "demoEnv\<lparr>line := Inl (Error ''canceled'')\<rparr>"
          and config = demoConfig and R = "[]"
          and r = demoRun and w = demoWorld, OF refl _ refl prod.collapse [symmetric]]
        decide_after_filter [where E = "demoEnv\<lparr>writable := (\<lambda>e. e \<noteq> WriteApproval)\<rparr>"
          and config = demoConfig and R = "[]"
          and r = demoRun and w = demoWorld, OF refl _ refl prod.collapse [symmetric]]
  by (simp add: demoEnv_def demoConfig_def demoRun_def demoWorld_def demoWarning_def
        unapproved_def approved_def cacheIndex_def indexKey_def toEntry_def rebuild_def
        enableDownloadCheck_def)

subsection \<open>The extractor\<close>

lemma lockfileLoop_Cons:
  "lockfileLoop E config deps ((p, s) # rest) =
     (if \<not> installed p s then lockfileLoop E config deps rest
      else if nameWithVersion p s \<in> fst ` set deps then lockfileLoop E config deps rest
      else if blacklisted E config p s
        then Inl (blacklistError config (nameOf p s) (spec_version s))
      else if ignored E config p s then lockfileLoop E config deps rest
      else lockfileLoop E config (deps @ [(nameWithVersion p s, toDependency p s)]) rest)"
  by (simp add: installed_def blacklisted_def ignored_def Let_def map_of_eq_None_iff)

lemma lockfileLoop_p2_Cons:
  "lockfileLoop_p2 E config deps ((p, s) # rest) =
     (if \<not> installed_p2 p s then lockfileLoop_p2 E config deps rest
      else if nameWithVersion p s \<in> fst ` set deps then lockfileLoop_p2 E config deps rest
      else if blacklisted E config p s
        then Inl (blacklistError config (nameOf p s) (spec_version s))
      else if ignored E config p s then lockfileLoop_p2 E config deps rest
      else lockfileLoop_p2 E config (deps @ [(nameWithVersion p s, toDependency p s)]) rest)"
  by (simp add: installed_p2_def blacklisted_def ignored_def Let_def map_of_eq_None_iff)

lemma lockfileLoop_Inr:
  "lockfileLoop E config deps rest = Inr out \<Longrightarrow>
     \<exists>extra. out = deps @ extra
       \<and> distinct (map fst extra)
       \<and> fst ` set extra \<inter> fst ` set deps = {}
       \<and> (\<forall>kd \<in> set extra. \<exists>e. find (candidate E config (fst kd)) rest = Some e
                                  \<and> snd kd = toDependency (fst e) (snd e))
       \<and> (\<forall>e \<in> set rest. installed (fst e) (snd e) \<and> \<not> ignored E config (fst e) (snd e)
              \<longrightarrow> nameWithVersion (fst e) (snd e) \<in> fst ` set out)"
proof (induction rest arbitrary: deps out)
  case Nil
  then show ?case by simp
next
  case (Cons e rest)
  obtain p s where e: "e = (p, s)" by (cases e)
  let ?k = "nameWithVersion p s"
  consider (skip) "\<not> installed p s"
    | (dup) "installed p s" "?k \<in> fst ` set deps"
    | (black) "installed p s" "?k \<notin> fst ` set deps" "blacklisted E config p s"
    | (ign) "installed p s" "?k \<notin> fst ` set deps" "\<not> blacklisted E config p s"
        "ignored E config p s"
    | (add) "installed p s" "?k \<notin> fst ` set deps" "\<not> blacklisted E config p s"
        "\<not> ignored E config p s"
    by blast
  then show ?case
  proof cases
    case skip
    with Cons.prems e have "lockfileLoop E config deps rest = Inr out"
      by (simp add: lockfileLoop_Cons del: lockfileLoop.simps)
    from Cons.IH [OF this] obtain extra where ex: "out = deps @ extra"
      "distinct (map fst extra)" "fst ` set extra \<inter> fst ` set deps = {}"
      "\<forall>kd \<in> set extra. \<exists>e. find (candidate E config (fst kd)) rest = Some e
                                  \<and> snd kd = toDependency (fst e) (snd e)"
      "\<forall>e \<in> set rest. installed (fst e) (snd e) \<and> \<not> ignored E config (fst e) (snd e)
              \<longrightarrow> nameWithVersion (fst e) (snd e) \<in> fst ` set out"
      by blast
    have nc: "\<And>k. \<not> candidate E config k e" using skip e by (simp add: candidate_def)
    show ?thesis
      apply (rule exI [of _ extra])
      using ex skip e nc by simp
  next
    case dup
    with Cons.prems e have "lockfileLoop E config deps rest = Inr out"
      by (simp add: lockfileLoop_Cons del: lockfileLoop.simps)
    from Cons.IH [OF this] obtain extra where ex: "out = deps @ extra"
      "distinct (map fst extra)" "fst ` set extra \<inter> fst ` set deps = {}"
      "\<forall>kd \<in> set extra. \<exists>e. find (candidate E config (fst kd)) rest = Some e
                                  \<and> snd kd = toDependency (fst e) (snd e)"
      "\<forall>e \<in> set rest. installed (fst e) (snd e) \<and> \<not> ignored E config (fst e) (snd e)
              \<longrightarrow> nameWithVersion (fst e) (snd e) \<in> fst ` set out"
      by blast
    have nc: "\<And>kd. kd \<in> set extra \<Longrightarrow> \<not> candidate E config (fst kd) e"
      using dup e ex(3) by (auto simp: candidate_def)
    have "?k \<in> fst ` set out" using dup ex(1) by auto
    then show ?thesis
      apply (intro exI [of _ extra])
      using ex e nc by simp
  next
    case black
    with Cons.prems e show ?thesis
      by (simp add: lockfileLoop_Cons del: lockfileLoop.simps)
  next
    case ign
    with Cons.prems e have "lockfileLoop E config deps rest = Inr out"
      by (simp add: lockfileLoop_Cons del: lockfileLoop.simps)
    from Cons.IH [OF this] obtain extra where ex: "out = deps @ extra"
      "distinct (map fst extra)" "fst ` set extra \<inter> fst ` set deps = {}"
      "\<forall>kd \<in> set extra. \<exists>e. find (candidate E config (fst kd)) rest = Some e
                                  \<and> snd kd = toDependency (fst e) (snd e)"
      "\<forall>e \<in> set rest. installed (fst e) (snd e) \<and> \<not> ignored E config (fst e) (snd e)
              \<longrightarrow> nameWithVersion (fst e) (snd e) \<in> fst ` set out"
      by blast
    have nc: "\<And>k. \<not> candidate E config k e" using ign e by (simp add: candidate_def)
    show ?thesis
      apply (rule exI [of _ extra])
      using ex ign e nc by simp
  next
    case add
    let ?deps = "deps @ [(?k, toDependency p s)]"
    from add Cons.prems e have "lockfileLoop E config ?deps rest = Inr out"
      by (simp add: lockfileLoop_Cons del: lockfileLoop.simps)
    from Cons.IH [OF this] obtain extra where ex: "out = ?deps @ extra"
      "distinct (map fst extra)" "fst ` set extra \<inter> fst ` set ?deps = {}"
      "\<forall>kd \<in> set extra. \<exists>e. find (candidate E config (fst kd)) rest = Some e
                                  \<and> snd kd = toDependency (fst e) (snd e)"
      "\<forall>e \<in> set rest. installed (fst e) (snd e) \<and> \<not> ignored E config (fst e) (snd e)
              \<longrightarrow> nameWithVersion (fst e) (snd e) \<in> fst ` set out"
      by blast
    have c: "candidate E config ?k e" using add e by (simp add: candidate_def)
    have nc: "\<And>kd. kd \<in> set extra \<Longrightarrow> \<not> candidate E config (fst kd) e"
      using e ex(3) by (auto simp: candidate_def)
    have k: "?k \<notin> fst ` set extra" using ex(3) by auto
    have "?k \<in> fst ` set out" using ex(1) by simp
    then show ?thesis
      apply (intro exI [of _ "(?k, toDependency p s) # extra"])
      using ex e nc c k add(2) by auto
  qed
qed


lemma lockfileLoop_p2_origin:
  "lockfileLoop_p2 E config deps rest = Inr out \<Longrightarrow>
     \<forall>kd \<in> set out. kd \<in> set deps
        \<or> (\<exists>e \<in> set rest. installed_p2 (fst e) (snd e) \<and> snd kd = toDependency (fst e) (snd e))"
proof (induction rest arbitrary: deps out)
  case Nil
  then show ?case by simp
next
  case (Cons e rest)
  obtain p s where e: "e = (p, s)" by (cases e)
  show ?case
  proof (cases "lockfileLoop_p2 E config deps rest = Inr out")
    case True
    from Cons.IH [OF this] show ?thesis by auto
  next
    case False
    with Cons.prems e have *: "installed_p2 p s"
      and **: "lockfileLoop_p2 E config (deps @ [(nameWithVersion p s, toDependency p s)]) rest
                 = Inr out"
      by (auto simp: lockfileLoop_p2_Cons simp del: lockfileLoop_p2.simps split: if_splits)
    from Cons.IH [OF **] * e show ?thesis by fastforce
  qed
qed

lemma lockfileLoop_origin:
  assumes "lockfileLoop E config [] packages = Inr out" and "kd \<in> set out"
  shows "\<exists>e \<in> set packages. candidate E config (fst kd) e \<and> snd kd = toDependency (fst e) (snd e)"
proof -
  from lockfileLoop_Inr [OF assms(1)] assms(2)
  obtain e where "find (candidate E config (fst kd)) packages = Some e"
    "snd kd = toDependency (fst e) (snd e)"
    by auto
  then show ?thesis
    by (metis find_Some_iff nth_mem)
qed

lemma depKey_toDependency:
  "depKey (toDependency p s) = nameWithVersion p s"
  by (simp add: toDependency_def nameWithVersion_def depKey_def)

lemma lockfileLoop_key:
  assumes "lockfileLoop E config [] packages = Inr out" and "kd \<in> set out"
  shows "depKey (snd kd) = fst kd"
proof -
  from lockfileLoop_origin [OF assms] obtain e
    where "candidate E config (fst kd) e" "snd kd = toDependency (fst e) (snd e)"
    by blast
  then show ?thesis by (simp add: candidate_def depKey_toDependency)
qed

lemma lockfileLoop_keys:
  assumes "lockfileLoop E config [] packages = Inr out"
  shows "map depKey (map snd out) = map fst out"
  using lockfileLoop_key [OF assms] by simp

lemma distinct_map_sort_key:
  "distinct (map f (sort_key k xs)) = distinct (map f xs)"
  by (simp add: distinct_map)

text \<open>
  C8.  When \<^verbatim>\<open>readInstalledPackagesFromLockfile\<close> of \<^verbatim>\<open>src/lib/index.ts\<close> returns: no two
  dependencies have the same \<^verbatim>\<open>name@version\<close>; the list is sorted ascending by name; each
  dependency is built from the first entry, in lockfile order, among those with its
  \<^verbatim>\<open>name@version\<close> that are neither skipped (root, link) nor ignored; and every such entry
  has its \<^verbatim>\<open>name@version\<close> in the list, so only later duplicates are dropped.
\<close>

theorem extractor_dedup_sorted:
  assumes "packageLockJson w = Content packages"
      and "readInstalledPackagesFromLockfile E config w = Inr ds"
  shows "distinct (map depKey ds)
       \<and> sorted (map name ds)
       \<and> (\<forall>d \<in> set ds. \<exists>e. find (candidate E config (depKey d)) packages = Some e
                            \<and> d = toDependency (fst e) (snd e))
       \<and> (\<forall>e \<in> set packages.
             installed (fst e) (snd e) \<and> \<not> ignored E config (fst e) (snd e)
             \<longrightarrow> nameWithVersion (fst e) (snd e) \<in> depKey ` set ds)"
proof -
  from assms obtain out where out: "lockfileLoop E config [] packages = Inr out"
    and ds: "ds = sort_key name (map snd out)"
    by (cases "lockfileLoop E config [] packages")
       (auto simp: readInstalledPackagesFromLockfile_def withLockfile_def)
  from lockfileLoop_Inr [OF out]
  have d: "distinct (map fst out)"
    and f: "\<forall>kd \<in> set out. \<exists>e. find (candidate E config (fst kd)) packages = Some e
                                  \<and> snd kd = toDependency (fst e) (snd e)"
    and c: "\<forall>e \<in> set packages. installed (fst e) (snd e) \<and> \<not> ignored E config (fst e) (snd e)
              \<longrightarrow> nameWithVersion (fst e) (snd e) \<in> fst ` set out"
    by auto
  note keys = lockfileLoop_keys [OF out]
  note key = lockfileLoop_key [OF out]
  have 1: "distinct (map depKey ds)"
    unfolding ds distinct_map_sort_key keys by (rule d)
  have 2: "sorted (map name ds)" unfolding ds by simp
  have 3: "\<forall>d \<in> set ds. \<exists>e. find (candidate E config (depKey d)) packages = Some e
                            \<and> d = toDependency (fst e) (snd e)"
  proof
    fix d assume "d \<in> set ds"
    then obtain kd where kd: "kd \<in> set out" "d = snd kd" unfolding ds by auto
    with f key [OF kd(1)] show "\<exists>e. find (candidate E config (depKey d)) packages = Some e
                            \<and> d = toDependency (fst e) (snd e)"
      by auto
  qed
  have 4: "\<forall>e \<in> set packages.
             installed (fst e) (snd e) \<and> \<not> ignored E config (fst e) (snd e)
             \<longrightarrow> nameWithVersion (fst e) (snd e) \<in> depKey ` set ds"
  proof (intro ballI impI)
    fix e assume "e \<in> set packages"
      "installed (fst e) (snd e) \<and> \<not> ignored E config (fst e) (snd e)"
    with c obtain kd where kd: "kd \<in> set out" "fst kd = nameWithVersion (fst e) (snd e)"
      by (auto simp: image_iff)
    have "snd kd \<in> set ds" unfolding ds using kd(1) by simp
    moreover have "depKey (snd kd) = nameWithVersion (fst e) (snd e)"
      using key [OF kd(1)] kd(2) by simp
    ultimately show "nameWithVersion (fst e) (snd e) \<in> depKey ` set ds"
      by (metis image_eqI)
  qed
  from 1 2 3 4 show ?thesis by blast
qed


text \<open>
  The lockfile \<open>demoLock\<close> installs \<^verbatim>\<open>foo@1.0.0\<close> under two paths; the first one is kept.
\<close>

theorem extractor_dedup_sorted_witness:
  "readInstalledPackagesFromLockfile demoEnv demoConfig
       (demoWorld\<lparr>packageLockJson := Content demoLock\<rparr>)
     = Inr [toDependency ''node_modules/@babel/core'' (entryOf ''7.0.0'' False False),
            toDependency ''node_modules/foo'' (entryOf ''1.0.0'' False False),
            toDependency ''node_modules/fsevents'' (entryOf ''2.3.3'' False True),
            toDependency ''node_modules/zed'' (entryOf ''2.0.0'' False False)]
   \<and> distinct (map depKey
         [toDependency ''node_modules/@babel/core'' (entryOf ''7.0.0'' False False),
          toDependency ''node_modules/foo'' (entryOf ''1.0.0'' False False),
          toDependency ''node_modules/fsevents'' (entryOf ''2.3.3'' False True),
          toDependency ''node_modules/zed'' (entryOf ''2.0.0'' False False)])
   \<and> sorted (map name
         [toDependency ''node_modules/@babel/core'' (entryOf ''7.0.0'' False False),
          toDependency ''node_modules/foo'' (entryOf ''1.0.0'' False False),
          toDependency ''node_modules/fsevents'' (entryOf ''2.3.3'' False True),
          toDependency ''node_modules/zed'' (entryOf ''2.0.0'' False False)])"
proof -
  have w: "packageLockJson (demoWorld\<lparr>packageLockJson := Content demoLock\<rparr>) = Content demoLock"
    by simp
  have ev: "readInstalledPackagesFromLockfile demoEnv demoConfig
       (demoWorld\<lparr>packageLockJson := Content demoLock\<rparr>)
     = Inr [toDependency ''node_modules/@babel/core'' (entryOf ''7.0.0'' False False),
            toDependency ''node_modules/foo'' (entryOf ''1.0.0'' False False),
            toDependency ''node_modules/fsevents'' (entryOf ''2.3.3'' False True),
            toDependency ''node_modules/zed'' (entryOf ''2.0.0'' False False)]"
    by code_simp
  from extractor_dedup_sorted [OF w ev] ev show ?thesis by blast
qed

lemma assoc_unique:
  "distinct (map fst xs) \<Longrightarrow> (k, a) \<in> set xs \<Longrightarrow> (k, b) \<in> set xs \<Longrightarrow> a = b"
  by (meson eq_key_imp_eq_value)

lemma path_toDependency [simp]: "path (toDependency p s) = p"
  by (simp add: toDependency_def)

text \<open>
  C9, as the code has it.  In a lockfile (a JSON object, so its paths are distinct), an
  entry that is the root or is marked \<^verbatim>\<open>link: true\<close> gives no dependency in either
  revision; an entry marked \<^verbatim>\<open>optional: true\<close> gives none in \<^verbatim>\<open>src/unnamed/part_002\<close>.
\<close>

theorem skipped_entries_emit_nothing:
  assumes "packageLockJson w = Content packages"
      and "distinct (map fst packages)"
      and "(p, s) \<in> set packages"
  shows "(p = [] \<or> spec_link s \<longrightarrow>
            (\<forall>ds. readInstalledPackagesFromLockfile E config w = Inr ds \<longrightarrow> p \<notin> path ` set ds))
       \<and> (p = [] \<or> spec_link s \<or> spec_optional s \<longrightarrow>
            (\<forall>ds. readInstalledPackagesFromLockfile_p2 E config w = Inr ds \<longrightarrow> p \<notin> path ` set ds))"
proof (intro conjI impI allI)
  fix ds
  assume skip: "p = [] \<or> spec_link s"
    and r: "readInstalledPackagesFromLockfile E config w = Inr ds"
  from r assms(1) obtain out where out: "lockfileLoop E config [] packages = Inr out"
    and ds: "ds = sort_key name (map snd out)"
    by (cases "lockfileLoop E config [] packages")
       (auto simp: readInstalledPackagesFromLockfile_def withLockfile_def)
  show "p \<notin> path ` set ds"
  proof
    assume "p \<in> path ` set ds"
    then obtain kd where kd: "kd \<in> set out" "path (snd kd) = p" unfolding ds by auto
    from lockfileLoop_origin [OF out kd(1)] obtain e where e: "e \<in> set packages"
      "candidate E config (fst kd) e" "snd kd = toDependency (fst e) (snd e)"
      by blast
    with kd(2) have "fst e = p" by simp
    with e(1) have "(p, snd e) \<in> set packages" by (metis prod.collapse)
    with assms(2,3) have "snd e = s" by (metis assoc_unique)
    with e(2) \<open>fst e = p\<close> skip show False by (simp add: candidate_def installed_def)
  qed
next
  fix ds
  assume skip: "p = [] \<or> spec_link s \<or> spec_optional s"
    and r: "readInstalledPackagesFromLockfile_p2 E config w = Inr ds"
  from r assms(1) obtain out where out: "lockfileLoop_p2 E config [] packages = Inr out"
    and ds: "ds = sort_key name (map snd out)"
    by (cases "lockfileLoop_p2 E config [] packages")
       (auto simp: readInstalledPackagesFromLockfile_p2_def withLockfile_def)
  show "p \<notin> path ` set ds"
  proof
    assume "p \<in> path ` set ds"
    then obtain kd where kd: "kd \<in> set out" "path (snd kd) = p" unfolding ds by auto
    from lockfileLoop_p2_origin [OF out] kd(1) obtain e where e: "e \<in> set packages"
      "installed_p2 (fst e) (snd e)" "snd kd = toDependency (fst e) (snd e)"
      by auto
    with kd(2) have "fst e = p" by simp
    with e(1) have "(p, snd e) \<in> set packages" by (metis prod.collapse)
    with assms(2,3) have "snd e = s" by (metis assoc_unique)
    with e(2) \<open>fst e = p\<close> skip show False by (auto simp: installed_p2_def)
  qed
qed

text \<open>
  C9 as stated fails on \<^verbatim>\<open>src/lib/index.ts\<close>, which has no test of \<^verbatim>\<open>optional\<close>: the
  optional entry \<^verbatim>\<open>node_modules/fsevents\<close> of \<open>demoLock\<close> is extracted.
\<close>

theorem optional_entry_is_extracted:
  "(''node_modules/fsevents'', entryOf ''2.3.3'' False True) \<in> set demoLock
   \<and> spec_optional (entryOf ''2.3.3'' False True)
   \<and> readInstalledPackagesFromLockfile demoEnv demoConfig
       (demoWorld\<lparr>packageLockJson := Content demoLock\<rparr>)
     = Inr [toDependency ''node_modules/@babel/core'' (entryOf ''7.0.0'' False False),
            toDependency ''node_modules/foo'' (entryOf ''1.0.0'' False False),
            toDependency ''node_modules/fsevents'' (entryOf ''2.3.3'' False True),
            toDependency ''node_modules/zed'' (entryOf ''2.0.0'' False False)]
   \<and> path (toDependency ''node_modules/fsevents'' (entryOf ''2.3.3'' False True))
       = ''node_modules/fsevents''"
  by code_simp

text \<open>The same lockfile in both revisions.\<close>

theorem skipped_entries_emit_nothing_witness:
  "distinct (map fst demoLock)
   \<and> ([], entryOf ''0.0.1'' False False) \<in> set demoLock
   \<and> (''node_modules/ws'', entryOf ''1.0.0'' True False) \<in> set demoLock
   \<and> (''node_modules/fsevents'', entryOf ''2.3.3'' False True) \<in> set demoLock
   \<and> map path (projr (readInstalledPackagesFromLockfile demoEnv demoConfig
                         (demoWorld\<lparr>packageLockJson := Content demoLock\<rparr>)))
       = [''node_modules/@babel/core'', ''node_modules/foo'', ''node_modules/fsevents'',
          ''node_modules/zed'']
   \<and> map path (projr (readInstalledPackagesFromLockfile_p2 demoEnv demoConfig
                         (demoWorld\<lparr>packageLockJson := Content demoLock\<rparr>)))
       = [''node_modules/@babel/core'', ''node_modules/foo'', ''node_modules/zed'']
   \<and> ''node_modules/ws''
       \<notin> path ` set (projr (readInstalledPackagesFromLockfile demoEnv demoConfig
                               (demoWorld\<lparr>packageLockJson := Content demoLock\<rparr>)))
   \<and> ''node_modules/fsevents''
       \<notin> path ` set (projr (readInstalledPackagesFromLockfile_p2 demoEnv demoConfig
                               (demoWorld\<lparr>packageLockJson := Content demoLock\<rparr>)))"
proof -
  have w: "packageLockJson (demoWorld\<lparr>packageLockJson := Content demoLock\<rparr>) = Content demoLock"
    by simp
  have d: "distinct (map fst demoLock)" by code_simp
  have m1: "([], entryOf ''0.0.1'' False False) \<in> set demoLock"
    and m2: "(''node_modules/ws'', entryOf ''1.0.0'' True False) \<in> set demoLock"
    and m3: "(''node_modules/fsevents'', entryOf ''2.3.3'' False True) \<in> set demoLock"
    by (simp_all add: demoLock_def)
  have l: "spec_link (entryOf ''1.0.0'' True False)"
    and opt: "spec_optional (entryOf ''2.3.3'' False True)"
    by (simp_all add: entryOf_def)
  define ds where "ds =
      [toDependency ''node_modules/@babel/core'' (entryOf ''7.0.0'' False False),
       toDependency ''node_modules/foo'' (entryOf ''1.0.0'' False False),
       toDependency ''node_modules/fsevents'' (entryOf ''2.3.3'' False True),
       toDependency ''node_modules/zed'' (entryOf ''2.0.0'' False False)]"
  define ds2 where "ds2 =
      [toDependency ''node_modules/@babel/core'' (entryOf ''7.0.0'' False False),
       toDependency ''node_modules/foo'' (entryOf ''1.0.0'' False False),
       toDependency ''node_modules/zed'' (entryOf ''2.0.0'' False False)]"
  have "readInstalledPackagesFromLockfile demoEnv demoConfig
          (demoWorld\<lparr>packageLockJson := Content demoLock\<rparr>)
        = Inr [toDependency ''node_modules/@babel/core'' (entryOf ''7.0.0'' False False),
               toDependency ''node_modules/foo'' (entryOf ''1.0.0'' False False),
               toDependency ''node_modules/fsevents'' (entryOf ''2.3.3'' False True),
               toDependency ''node_modules/zed'' (entryOf ''2.0.0'' False False)]"
    by code_simp
  then have ev: "readInstalledPackagesFromLockfile demoEnv demoConfig
          (demoWorld\<lparr>packageLockJson := Content demoLock\<rparr>) = Inr ds"
    by (simp add: ds_def)
  have "readInstalledPackagesFromLockfile_p2 demoEnv demoConfig
          (demoWorld\<lparr>packageLockJson := Content demoLock\<rparr>)
        = Inr [toDependency ''node_modules/@babel/core'' (entryOf ''7.0.0'' False False),
               toDependency ''node_modules/foo'' (entryOf ''1.0.0'' False False),
               toDependency ''node_modules/zed'' (entryOf ''2.0.0'' False False)]"
    by code_simp
  then have ev2: "readInstalledPackagesFromLockfile_p2 demoEnv demoConfig
          (demoWorld\<lparr>packageLockJson := Content demoLock\<rparr>) = Inr ds2"
    by (simp add: ds2_def)
  have p: "map path ds = [''node_modules/@babel/core'', ''node_modules/foo'',
                         ''node_modules/fsevents'', ''node_modules/zed'']"
    and p2: "map path ds2 = [''node_modules/@babel/core'', ''node_modules/foo'',
                         ''node_modules/zed'']"
    by (simp_all add: ds_def ds2_def)
  from skipped_entries_emit_nothing [OF w d m2, of demoEnv demoConfig] l ev
  have a: "''node_modules/ws'' \<notin> path ` set ds" by blast
  from skipped_entries_emit_nothing [OF w d m3, of demoEnv demoConfig] opt ev2
  have b: "''node_modules/fsevents'' \<notin> path ` set ds2" by blast
  from a b d m1 m2 m3 ev ev2 p p2 show ?thesis by simp
qed


lemma lockfileLoop_blacklisted:
  assumes "(p, s) \<in> set rest" and "installed p s" and "blacklisted E config p s"
      and "\<forall>e \<in> set rest. nameWithVersion (fst e) (snd e) = nameWithVersion p s
             \<longrightarrow> nameOf (fst e) (snd e) = nameOf p s \<and> spec_version (snd e) = spec_version s"
      and "nameWithVersion p s \<notin> fst ` set deps"
  shows "\<exists>q t. (q, t) \<in> set rest \<and> blacklisted E config q t
           \<and> lockfileLoop E config deps rest
               = Inl (blacklistError config (nameOf q t) (spec_version t))"
  using assms
proof (induction rest arbitrary: deps)
  case Nil
  then show ?case by simp
next
  case (Cons e rest)
  obtain q t where e: "e = (q, t)" by (cases e)
  show ?case
  proof (cases "installed q t \<and> nameWithVersion q t \<notin> fst ` set deps \<and> blacklisted E config q t")
    case True
    then have "lockfileLoop E config deps (e # rest)
                 = Inl (blacklistError config (nameOf q t) (spec_version t))"
      by (simp add: e lockfileLoop_Cons del: lockfileLoop.simps)
    with True e show ?thesis by auto
  next
    case False
    with Cons.prems(1,2,3,5) e have in_rest: "(p, s) \<in> set rest" by auto
    have inj: "\<forall>e \<in> set rest. nameWithVersion (fst e) (snd e) = nameWithVersion p s
             \<longrightarrow> nameOf (fst e) (snd e) = nameOf p s \<and> spec_version (snd e) = spec_version s"
      using Cons.prems(4) by simp
    have same: "nameWithVersion q t = nameWithVersion p s \<Longrightarrow> blacklisted E config q t"
    proof -
      assume "nameWithVersion q t = nameWithVersion p s"
      with Cons.prems(4) e have "nameOf q t = nameOf p s \<and> spec_version t = spec_version s"
        by simp
      with Cons.prems(3) show ?thesis by (simp add: blacklisted_def)
    qed
    have "lockfileLoop E config deps (e # rest) = lockfileLoop E config deps rest
        \<or> (installed q t \<and> nameWithVersion q t \<notin> fst ` set deps
            \<and> \<not> blacklisted E config q t
            \<and> lockfileLoop E config deps (e # rest)
                 = lockfileLoop E config (deps @ [(nameWithVersion q t, toDependency q t)]) rest)"
      using False
      by (cases "installed q t"; cases "nameWithVersion q t \<in> fst ` set deps";
          cases "blacklisted E config q t"; cases "ignored E config q t";
          simp add: e lockfileLoop_Cons del: lockfileLoop.simps)
    then consider (keep) "lockfileLoop E config deps (e # rest) = lockfileLoop E config deps rest"
      | (add) "installed q t" "nameWithVersion q t \<notin> fst ` set deps"
          "\<not> blacklisted E config q t"
          "lockfileLoop E config deps (e # rest)
             = lockfileLoop E config (deps @ [(nameWithVersion q t, toDependency q t)]) rest"
      by blast
    then show ?thesis
    proof cases
      case keep
      from Cons.IH [OF in_rest Cons.prems(2,3) inj Cons.prems(5)] keep show ?thesis
        by auto
    next
      case add
      from add(3) same have "nameWithVersion q t \<noteq> nameWithVersion p s" by blast
      with Cons.prems(5)
      have "nameWithVersion p s \<notin> fst ` set (deps @ [(nameWithVersion q t, toDependency q t)])"
        by auto
      from Cons.IH [OF in_rest Cons.prems(2,3) inj this] add(4) show ?thesis
        by auto
    qed
  qed
qed

lemma lockfileLoop_p2_blacklisted:
  assumes "(p, s) \<in> set rest" and "installed_p2 p s" and "blacklisted E config p s"
      and "\<forall>e \<in> set rest. nameWithVersion (fst e) (snd e) = nameWithVersion p s
             \<longrightarrow> nameOf (fst e) (snd e) = nameOf p s \<and> spec_version (snd e) = spec_version s"
      and "nameWithVersion p s \<notin> fst ` set deps"
  shows "\<exists>q t. (q, t) \<in> set rest \<and> blacklisted E config q t
           \<and> lockfileLoop_p2 E config deps rest
               = Inl (blacklistError config (nameOf q t) (spec_version t))"
  using assms
proof (induction rest arbitrary: deps)
  case Nil
  then show ?case by simp
next
  case (Cons e rest)
  obtain q t where e: "e = (q, t)" by (cases e)
  show ?case
  proof (cases "installed_p2 q t \<and> nameWithVersion q t \<notin> fst ` set deps \<and> blacklisted E config q t")
    case True
    then have "lockfileLoop_p2 E config deps (e # rest)
                 = Inl (blacklistError config (nameOf q t) (spec_version t))"
      by (simp add: e lockfileLoop_p2_Cons del: lockfileLoop_p2.simps)
    with True e show ?thesis by auto
  next
    case False
    with Cons.prems(1,2,3,5) e have in_rest: "(p, s) \<in> set rest" by auto
    have inj: "\<forall>e \<in> set rest. nameWithVersion (fst e) (snd e) = nameWithVersion p s
             \<longrightarrow> nameOf (fst e) (snd e) = nameOf p s \<and> spec_version (snd e) = spec_version s"
      using Cons.prems(4) by simp
    have same: "nameWithVersion q t = nameWithVersion p s \<Longrightarrow> blacklisted E config q t"
    proof -
      assume "nameWithVersion q t = nameWithVersion p s"
      with Cons.prems(4) e have "nameOf q t = nameOf p s \<and> spec_version t = spec_version s"
        by simp
      with Cons.prems(3) show ?thesis by (simp add: blacklisted_def)
    qed
    have "lockfileLoop_p2 E config deps (e # rest) = lockfileLoop_p2 E config deps rest
        \<or> (installed_p2 q t \<and> nameWithVersion q t \<notin> fst ` set deps
            \<and> \<not> blacklisted E config q t
            \<and> lockfileLoop_p2 E config deps (e # rest)
                 = lockfileLoop_p2 E config (deps @ [(nameWithVersion q t, toDependency q t)]) rest)"
      using False
      by (cases "installed_p2 q t"; cases "nameWithVersion q t \<in> fst ` set deps";
          cases "blacklisted E config q t"; cases "ignored E config q t";
          simp add: e lockfileLoop_p2_Cons del: lockfileLoop_p2.simps)
    then consider (keep) "lockfileLoop_p2 E config deps (e # rest) = lockfileLoop_p2 E config deps rest"
      | (add) "installed_p2 q t" "nameWithVersion q t \<notin> fst ` set deps"
          "\<not> blacklisted E config q t"
          "lockfileLoop_p2 E config deps (e # rest)
             = lockfileLoop_p2 E config (deps @ [(nameWithVersion q t, toDependency q t)]) rest"
      by blast
    then show ?thesis
    proof cases
      case keep
      from Cons.IH [OF in_rest Cons.prems(2,3) inj Cons.prems(5)] keep show ?thesis
        by auto
    next
      case add
      from add(3) same have "nameWithVersion q t \<noteq> nameWithVersion p s" by blast
      with Cons.prems(5)
      have "nameWithVersion p s \<notin> fst ` set (deps @ [(nameWithVersion q t, toDependency q t)])"
        by auto
      from Cons.IH [OF in_rest Cons.prems(2,3) inj this] add(4) show ?thesis
        by auto
    qed
  qed
qed

lemma processRepoWith_throws:
  "reader E config w = Inl e \<Longrightarrow> \<exists>e'. processRepoWith rv reader E config w = (Threw e', w)"
  by (simp add: processRepoWith_def split: sum.splits)

text \<open>
  C4, as the code has it.  If an entry that the loop does not skip (root, link; in
  \<^verbatim>\<open>src/unnamed/part_002\<close> also optional) has a name and version that a non-empty range of
  the blacklist matches, and no entry with another name or version has the same
  \<^verbatim>\<open>name@version\<close> string, then the extraction throws the error of a blacklisted entry and
  \<^verbatim>\<open>processRepo\<close> ends with a throw in the world it started in: no request, no write, no
  prompt.  Nothing is assumed of the ignore list.
\<close>

theorem blacklist_aborts:
  assumes "packageLockJson w = Content packages"
      and "(p, s) \<in> set packages"
      and "blacklisted E config p s"
      and "\<forall>e \<in> set packages. nameWithVersion (fst e) (snd e) = nameWithVersion p s
             \<longrightarrow> nameOf (fst e) (snd e) = nameOf p s \<and> spec_version (snd e) = spec_version s"
  shows "(installed p s \<longrightarrow>
            (\<exists>q t. (q, t) \<in> set packages \<and> blacklisted E config q t
               \<and> readInstalledPackagesFromLockfile E config w
                   = Inl (blacklistError config (nameOf q t) (spec_version t)))
            \<and> (\<exists>e. processRepo E config w = (Threw e, w)))
       \<and> (installed_p2 p s \<longrightarrow>
            (\<exists>q t. (q, t) \<in> set packages \<and> blacklisted E config q t
               \<and> readInstalledPackagesFromLockfile_p2 E config w
                   = Inl (blacklistError config (nameOf q t) (spec_version t)))
            \<and> (\<exists>e. processRepo_p2 E config w = (Threw e, w)))"
proof (intro conjI impI)
  assume i: "installed p s"
  from lockfileLoop_blacklisted [OF assms(2) i assms(3,4), of "[]"]
  obtain q t where qt: "(q, t) \<in> set packages" "blacklisted E config q t"
    "lockfileLoop E config [] packages = Inl (blacklistError config (nameOf q t) (spec_version t))"
    by auto
  then have r: "readInstalledPackagesFromLockfile E config w
                  = Inl (blacklistError config (nameOf q t) (spec_version t))"
    using assms(1) by (simp add: readInstalledPackagesFromLockfile_def withLockfile_def)
  with qt show "\<exists>q t. (q, t) \<in> set packages \<and> blacklisted E config q t
               \<and> readInstalledPackagesFromLockfile E config w
                   = Inl (blacklistError config (nameOf q t) (spec_version t))"
    by blast
  from processRepoWith_throws [where reader = readInstalledPackagesFromLockfile, OF r]
  show "\<exists>e. processRepo E config w = (Threw e, w)"
    by (simp add: processRepo_def)
next
  assume i: "installed_p2 p s"
  from lockfileLoop_p2_blacklisted [OF assms(2) i assms(3,4), of "[]"]
  obtain q t where qt: "(q, t) \<in> set packages" "blacklisted E config q t"
    "lockfileLoop_p2 E config [] packages
       = Inl (blacklistError config (nameOf q t) (spec_version t))"
    by auto
  then have r: "readInstalledPackagesFromLockfile_p2 E config w
                  = Inl (blacklistError config (nameOf q t) (spec_version t))"
    using assms(1) by (simp add: readInstalledPackagesFromLockfile_p2_def withLockfile_def)
  with qt show "\<exists>q t. (q, t) \<in> set packages \<and> blacklisted E config q t
               \<and> readInstalledPackagesFromLockfile_p2 E config w
                   = Inl (blacklistError config (nameOf q t) (spec_version t))"
    by blast
  from processRepoWith_throws [where reader = readInstalledPackagesFromLockfile_p2, OF r]
  show "\<exists>e. processRepo_p2 E config w = (Threw e, w)"
    by (simp add: processRepo_p2_def)
qed

text \<open>
  C4 as stated fails: an entry marked \<^verbatim>\<open>link: true\<close> is skipped before the blacklist is
  looked at, so a linked entry that the blacklist matches does not stop the run.
\<close>

theorem linked_blacklisted_entry_passes:
  "blacklisted demoEnv demoConfig ''node_modules/evil'' (entryOf ''1.0.0'' True False)
   \<and> readInstalledPackagesFromLockfile demoEnv demoConfig
       (demoWorld\<lparr>packageLockJson :=
           Content [(''node_modules/evil'', entryOf ''1.0.0'' True False)]\<rparr>) = Inr []
   \<and> fst (processRepo demoEnv demoConfig
       (demoWorld\<lparr>packageLockJson :=
           Content [(''node_modules/evil'', entryOf ''1.0.0'' True False)]\<rparr>)) = Returned"
  by code_simp

text \<open>An entry that both the blacklist and the ignore list match.\<close>

theorem blacklist_aborts_witness:
  "blacklisted demoEnv (demoConfig\<lparr>ignore := [(''evil'', ''1.0.0'')]\<rparr>)
     ''node_modules/evil'' (entryOf ''1.0.0'' False False)
   \<and> ignored demoEnv (demoConfig\<lparr>ignore := [(''evil'', ''1.0.0'')]\<rparr>)
     ''node_modules/evil'' (entryOf ''1.0.0'' False False)
   \<and> installed ''node_modules/evil'' (entryOf ''1.0.0'' False False)
   \<and> (\<exists>e. processRepo demoEnv (demoConfig\<lparr>ignore := [(''evil'', ''1.0.0'')]\<rparr>)
             (demoWorld\<lparr>packageLockJson :=
                Content (demoLock @ [(''node_modules/evil'', entryOf ''1.0.0'' False False)])\<rparr>)
           = (Threw e,
              demoWorld\<lparr>packageLockJson :=
                Content (demoLock @ [(''node_modules/evil'', entryOf ''1.0.0'' False False)])\<rparr>))
   \<and> (\<exists>e. processRepo_p2 demoEnv (demoConfig\<lparr>ignore := [(''evil'', ''1.0.0'')]\<rparr>)
             (demoWorld\<lparr>packageLockJson :=
                Content (demoLock @ [(''node_modules/evil'', entryOf ''1.0.0'' False False)])\<rparr>)
           = (Threw e,
              demoWorld\<lparr>packageLockJson :=
                Content (demoLock @ [(''node_modules/evil'', entryOf ''1.0.0'' False False)])\<rparr>))"
proof -
  let ?c = "demoConfig\<lparr>ignore := [(''evil'', ''1.0.0'')]\<rparr>"
  let ?L = "demoLock @ [(''node_modules/evil'', entryOf ''1.0.0'' False False)]"
  let ?w = "demoWorld\<lparr>packageLockJson := Content ?L\<rparr>"
  have w: "packageLockJson ?w = Content ?L" by simp
  have m: "(''node_modules/evil'', entryOf ''1.0.0'' False False) \<in> set ?L" by simp
  have b: "blacklisted demoEnv ?c ''node_modules/evil'' (entryOf ''1.0.0'' False False)"
    by code_simp
  have g: "ignored demoEnv ?c ''node_modules/evil'' (entryOf ''1.0.0'' False False)"
    by code_simp
  have i: "installed ''node_modules/evil'' (entryOf ''1.0.0'' False False)"
    and i2: "installed_p2 ''node_modules/evil'' (entryOf ''1.0.0'' False False)"
    by (simp_all add: installed_def installed_p2_def entryOf_def)
  have inj: "\<forall>e \<in> set ?L.
     nameWithVersion (fst e) (snd e)
       = nameWithVersion ''node_modules/evil'' (entryOf ''1.0.0'' False False)
     \<longrightarrow> nameOf (fst e) (snd e) = nameOf ''node_modules/evil'' (entryOf ''1.0.0'' False False)
         \<and> spec_version (snd e) = spec_version (entryOf ''1.0.0'' False False)"
    by code_simp
  from blacklist_aborts [OF w m b inj] i i2 b g show ?thesis by blast
qed

subsection \<open>A callback alone in its batch\<close>

text \<open>
  With one callback in the batch the schedule has no choice, and the resumptions add up to
  the callback run alone.
\<close>

lemma runBatch_single:
  "runBatch rv E config sched [(dep, pc)] r w =
     (if pc = Done then ((Inr r, w), sched)
      else (case resume rv E config dep pc r w of
              (Inl e, w1) \<Rightarrow> ((Inl e, w1), tl sched)
            | (Inr (pc', r1), w1) \<Rightarrow> runBatch rv E config (tl sched) [(dep, pc')] r1 w1))"
proof (cases "pc = Done")
  case True
  then show ?thesis by (simp add: runBatch.simps [of rv E config sched] pending_def)
next
  case False
  then have p: "pending [(dep, pc)] = [0]" by (simp add: pending_def)
  have k: "pick sched [0] = 0" by (cases sched) (simp_all add: pick_def)
  from False show ?thesis
    by (simp add: runBatch.simps [of rv E config sched] p k split: prod.splits sum.splits)
qed

lemma runBatch_Done: "fst (runBatch rv E config sched [(dep, Done)] r w) = (Inr r, w)"
  by (simp add: runBatch_single)

lemma runBatch_downloadsBegin:
  "downloadsBegin Lib E config dep r w = (Inr (pc, r1), w1)
     \<Longrightarrow> fst (runBatch Lib E config sched [(dep, pc)] r1 w1) = downloadCheck E config dep r w"
  by (auto simp: downloadsBegin_def downloadCheck_def lookupDownloads_def
        checkPackageDownloads_def downloadsEnd_def runBatch_single problemOf_def
        split: if_splits option.splits sum.splits)

lemma runBatch_downloadsBegin_p2:
  "downloadsBegin P2 E config dep r w = (Inr (pc, r1), w1)
     \<Longrightarrow> fst (runBatch P2 E config sched [(dep, pc)] r1 w1) = downloadCheck_p2 E config dep r w"
  by (auto simp: downloadsBegin_def downloadCheck_p2_def lookupDownloads_p2_def
        checkPackageDownloads_p2_def downloadsEnd_def runBatch_single problemOf_def
        split: if_splits option.splits sum.splits)

lemma downloadsBegin_Inr: "\<exists>pc r1 w1. downloadsBegin rv E config dep r w = (Inr (pc, r1), w1)"
  by (simp add: downloadsBegin_def split: option.splits)

lemma after_alone:
  "fst (case afterRegistry Lib E config dep json r w of
          (Inl e, w1) \<Rightarrow> ((Inl e, w1), s)
        | (Inr (pc, r1), w1) \<Rightarrow> runBatch Lib E config s [(dep, pc)] r1 w1)
     = downloadCheck E config dep
         (r\<lparr>warnings := warnings r @ problemsOf Lib E config dep json\<rparr>) w"
  using downloadsBegin_Inr
          [where rv = Lib and E = E and config = config and dep = dep and w = w
             and r = "r\<lparr>warnings := warnings r @ problemsOf Lib E config dep json\<rparr>"]
  by (auto simp: afterRegistry_def runBatch_downloadsBegin)

lemma after_alone_p2:
  "fst (case afterRegistry P2 E config dep json r w of
          (Inl e, w1) \<Rightarrow> ((Inl e, w1), s)
        | (Inr (pc, r1), w1) \<Rightarrow> runBatch P2 E config s [(dep, pc)] r1 w1)
     = downloadCheck_p2 E config dep
         (r\<lparr>warnings := warnings r @ problemsOf P2 E config dep json\<rparr>) w"
  using downloadsBegin_Inr
          [where rv = P2 and E = E and config = config and dep = dep and w = w
             and r = "r\<lparr>warnings := warnings r @ problemsOf P2 E config dep json\<rparr>"]
  by (auto simp: afterRegistry_def runBatch_downloadsBegin_p2)

lemma fetch_alone:
  "fst (runBatch Lib E config sched [(dep, AtFetch)] r w)
     = (case fetched requiredData E (name dep) (version dep) of
          Inl e \<Rightarrow> downloadCheck E config dep (r\<lparr>warnings := warnings r @ []\<rparr>) w
        | Inr (data, disk) \<Rightarrow>
            downloadCheck E config dep
              (r\<lparr>warnings := warnings r @ evaluate E config (name dep) (version dep) data\<rparr>)
              (writeCache E (name dep) disk w))"
proof (cases "fetched requiredData E (name dep) (version dep)")
  case (Inl e)
  then show ?thesis
    using after_alone [where E = E and config = config and dep = dep and json = None and r = r and w = w and s = "tl sched"]
    by (simp add: runBatch_single [of Lib E config sched] build_def problemsOf_def)
next
  case (Inr p)
  obtain data disk where p: "p = (data, disk)" by (cases p)
  with Inr show ?thesis
    using after_alone [where E = E and config = config and dep = dep and json = "Some data" and r = r
            and w = "writeCache E (name dep) disk w" and s = "tl (tl sched)"]
    by (simp add: runBatch_single [of Lib E config sched]
          runBatch_single [of Lib E config "tl sched"] build_def problemsOf_def)
qed

lemma fetch_alone_p2:
  "fst (runBatch P2 E config sched [(dep, AtFetch)] r w)
     = (case fetched requiredData_p2 E (name dep) (version dep) of
          Inl e \<Rightarrow> downloadCheck_p2 E config dep (r\<lparr>warnings := warnings r @ []\<rparr>) w
        | Inr (data, disk) \<Rightarrow>
            downloadCheck_p2 E config dep
              (r\<lparr>warnings := warnings r
                   @ (case ageWarning_p2 E (minPackageAge config) (name dep) (version dep) data of
                        None \<Rightarrow> [] | Some a \<Rightarrow> [a])\<rparr>)
              (writeCache E (name dep) disk w))"
proof (cases "fetched requiredData_p2 E (name dep) (version dep)")
  case (Inl e)
  then show ?thesis
    using after_alone_p2 [where E = E and config = config and dep = dep and json = None and r = r and w = w and s = "tl sched"]
    by (simp add: runBatch_single [of P2 E config sched] build_def problemsOf_def)
next
  case (Inr p)
  obtain data disk where p: "p = (data, disk)" by (cases p)
  with Inr show ?thesis
    using after_alone_p2 [where E = E and config = config and dep = dep and json = "Some data" and r = r
            and w = "writeCache E (name dep) disk w" and s = "tl (tl sched)"]
    by (simp add: runBatch_single [of P2 E config sched]
          runBatch_single [of P2 E config "tl sched"] build_def problemsOf_def)
qed

lemma cacheHit_Absent: "registryFiles w nm = Absent \<Longrightarrow> cacheHit f E nm v w = None"
  by (simp add: cacheHit_def)

lemma cacheHit_emit [simp]: "cacheHit f E nm v (emit e w) = cacheHit f E nm v w"
  by (simp add: cacheHit_def)

text \<open>
  In \<^verbatim>\<open>src/lib/index.ts\<close>: the loop over a batch of one dependency is \<^verbatim>\<open>checkPackage\<close>,
  the push of its problems and the download check, whatever the schedule.
\<close>

lemma callback_alone:
  "fst (runBatch Lib E config sched (fst (startBatch Lib [dep] w)) r (snd (startBatch Lib [dep] w)))
     = perDependency E config dep r w"
proof (cases "registryFiles w (name dep) = Absent")
  case True
  then have s: "startBatch Lib [dep] w
                  = ([(dep, AtFetch)], emit (GET (registryUrl (name dep))) w)"
    by (simp add: begin_callback_def registryBegin_def)
  from True show ?thesis
    unfolding s fst_conv snd_conv fetch_alone
    by (simp add: perDependency_def checkPackage_def cacheRegistry_def cacheRegistryWith_def
          cacheHit_Absent split: sum.splits prod.splits)
next
  case False
  then have s: "startBatch Lib [dep] w = ([(dep, AtRead)], w)"
    by (simp add: begin_callback_def registryBegin_def)
  show ?thesis
  proof (cases "cacheHit tryCache E (name dep) (version dep) w")
    case None
    then show ?thesis
      unfolding s fst_conv snd_conv
      by (simp add: runBatch_single [of Lib E config sched] look_def fetch_alone
            perDependency_def checkPackage_def cacheRegistry_def cacheRegistryWith_def
            split: sum.splits prod.splits)
  next
    case (Some cache)
    then show ?thesis
      unfolding s fst_conv snd_conv
      using after_alone [where E = E and config = config and dep = dep and json = "Some cache" and r = r
              and w = w and s = "tl sched"]
      by (simp add: runBatch_single [of Lib E config sched] look_def problemsOf_def
            perDependency_def checkPackage_def cacheRegistry_def cacheRegistryWith_def)
  qed
qed

lemma registry_alone_p2:
  "registryBegin (name dep) w = (pc, w0)
     \<Longrightarrow> fst (runBatch P2 E config sched [(dep, pc)] r w0)
           = (case checkPackageAge_p2 E (minPackageAge config) (name dep) (version dep) w of
                (ageWarning, w1) \<Rightarrow>
                  downloadCheck_p2 E config dep
                    (r\<lparr>warnings := warnings r
                         @ (case ageWarning of None \<Rightarrow> [] | Some a \<Rightarrow> [a])\<rparr>) w1)"
proof (cases "registryFiles w (name dep) = Absent")
  case True
  assume "registryBegin (name dep) w = (pc, w0)"
  with True have s: "pc = AtFetch" "w0 = emit (GET (registryUrl (name dep))) w"
    by (simp_all add: registryBegin_def)
  from True show ?thesis
    unfolding s fetch_alone_p2
    by (simp add: checkPackageAge_p2_def cacheRegistry_p2_def cacheRegistryWith_def
          cacheHit_Absent split: sum.splits prod.splits)
next
  case False
  assume "registryBegin (name dep) w = (pc, w0)"
  with False have s: "pc = AtRead" "w0 = w"
    by (simp_all add: registryBegin_def)
  show ?thesis
  proof (cases "cacheHit tryCache_p2 E (name dep) (version dep) w")
    case None
    then show ?thesis
      unfolding s
      by (simp add: runBatch_single [of P2 E config sched] look_def fetch_alone_p2
            checkPackageAge_p2_def cacheRegistry_p2_def cacheRegistryWith_def
            split: sum.splits prod.splits)
  next
    case (Some cache)
    then show ?thesis
      unfolding s
      using after_alone_p2 [where E = E and config = config and dep = dep and json = "Some cache" and r = r
              and w = w and s = "tl sched"]
      by (simp add: runBatch_single [of P2 E config sched] look_def problemsOf_def
            checkPackageAge_p2_def cacheRegistry_p2_def cacheRegistryWith_def)
  qed
qed

text \<open>The same in \<^verbatim>\<open>src/unnamed/part_002\<close>.\<close>

lemma callback_alone_p2:
  "fst (runBatch P2 E config sched (fst (startBatch P2 [dep] w)) r (snd (startBatch P2 [dep] w)))
     = perDependency_p2 E config dep r w"
proof -
  have s: "startBatch P2 [dep] w = ([(dep, AtLocalRead)], w)"
    by (simp add: begin_callback_def)
  show ?thesis
  proof (cases "processLocalPackageJson_p2 E config dep w")
    case (Inl e)
    then show ?thesis
      unfolding s fst_conv snd_conv
      by (simp add: runBatch_single [of P2 E config sched] afterLocalRead_def
            perDependency_p2_def)
  next
    case (Inr js)
    show ?thesis
    proof (cases "minPackageAge config \<noteq> 0 \<and> minPackageAge config > 0")
      case True
      obtain pc w0 where b: "registryBegin (name dep) w = (pc, w0)"
        by (cases "registryBegin (name dep) w")
      from registry_alone_p2 [OF b, where E = E and config = config and sched = "tl sched"
             and r = "r\<lparr>warnings := warnings r @ js\<rparr>"]
        Inr True b
      show ?thesis
        unfolding s fst_conv snd_conv
        by (simp add: runBatch_single [of P2 E config sched] afterLocalRead_def Let_def
              perDependency_p2_def split: prod.splits)
    next
      case False
      obtain pc r1 w1
        where d: "downloadsBegin P2 E config dep (r\<lparr>warnings := warnings r @ js\<rparr>) w
                    = (Inr (pc, r1), w1)"
        using downloadsBegin_Inr by blast
      from False have a: "\<not> (minPackageAge config \<noteq> 0 \<and> minPackageAge config > 0)" .
      from runBatch_downloadsBegin_p2 [OF d, where sched = "tl sched"] Inr d
      show ?thesis
        unfolding s fst_conv snd_conv
        by (simp add: runBatch_single [of P2 E config sched] afterLocalRead_def Let_def
              perDependency_p2_def if_not_P [OF a])
    qed
  qed
qed

lemma slices_single: "slices [dep] 0 = [dep] # []"
  by (simp add: slices.simps [of "[dep]" 0] slices.simps [of "[dep]" 32] batchSize_def)

text \<open>So the loop of \<^verbatim>\<open>processRepo\<close> over one dependency is the callback run alone.\<close>

lemma loop_alone:
  "forEachBatch Lib E config sched (slices [dep] 0) r w = perDependency E config dep r w"
  using callback_alone [of E config sched dep w r]
  by (auto simp: slices_single split: prod.splits sum.splits)

lemma loop_alone_p2:
  "forEachBatch P2 E config sched (slices [dep] 0) r w = perDependency_p2 E config dep r w"
  using callback_alone_p2 [of E config sched dep w r]
  by (auto simp: slices_single split: prod.splits sum.splits)

subsection \<open>The orchestrator\<close>

text \<open>
  C10.  The claim: a cached count of 0 is a miss and the downloads are requested, and only
  a truthy cached count suppresses the request.  The first half holds: with the count 0
  stored for \<^verbatim>\<open>foo\<close> the run requests the downloads of \<^verbatim>\<open>foo\<close>, with the count 7 it does
  not.  But \<^verbatim>\<open>packageDownloadCache[dep.name]\<close> also finds what the object inherits: for
  the dependency \<^verbatim>\<open>constructor\<close>, with no downloads cache on disk at all, the value is the
  function \<^verbatim>\<open>Object\<close>, which is truthy, so neither revision requests the downloads of the
  package, and neither warns: the registry request (unanswered here) and the save of the
  downloads cache are all the run does.
\<close>

theorem inherited_member_suppresses_fetch:
  "downloadsFile ctorWorld = Absent
   \<and> map name (projr (readInstalledPackagesFromLockfile demoEnv demoConfig ctorWorld))
       = [''constructor'']
   \<and> enableDownloadCheck demoConfig
   \<and> fst (processRepo demoEnv demoConfig ctorWorld) = Returned
   \<and> events (snd (processRepo demoEnv demoConfig ctorWorld))
       = [GET (registryUrl ''constructor''), WriteDownloads]
   \<and> fst (processRepo_p2 demoEnv demoConfig ctorWorld) = Returned
   \<and> events (snd (processRepo_p2 demoEnv demoConfig ctorWorld))
       = [GET (registryUrl ''constructor''), WriteDownloads]
   \<and> events (snd (processRepo demoEnv demoConfig (countedWorld 0)))
       = [GET (registryUrl ''foo''), WriteRegistryCache ''foo'', GET (downloadsUrl ''foo''),
          WriteDownloads, Prompt, WriteApproval]
   \<and> events (snd (processRepo demoEnv demoConfig (countedWorld 7)))
       = [GET (registryUrl ''foo''), WriteRegistryCache ''foo'',
          WriteDownloads, Prompt, WriteApproval]"
proof -
  have "downloadsFile ctorWorld = Absent"
    by (simp add: ctorWorld_def demoWorld_def)
  moreover
  have "map name (projr (readInstalledPackagesFromLockfile demoEnv demoConfig ctorWorld))
       = [''constructor'']
   \<and> enableDownloadCheck demoConfig
   \<and> fst (processRepo demoEnv demoConfig ctorWorld) = Returned
   \<and> events (snd (processRepo demoEnv demoConfig ctorWorld))
       = [GET (registryUrl ''constructor''), WriteDownloads]
   \<and> fst (processRepo_p2 demoEnv demoConfig ctorWorld) = Returned
   \<and> events (snd (processRepo_p2 demoEnv demoConfig ctorWorld))
       = [GET (registryUrl ''constructor''), WriteDownloads]
   \<and> events (snd (processRepo demoEnv demoConfig (countedWorld 0)))
       = [GET (registryUrl ''foo''), WriteRegistryCache ''foo'', GET (downloadsUrl ''foo''),
          WriteDownloads, Prompt, WriteApproval]
   \<and> events (snd (processRepo demoEnv demoConfig (countedWorld 7)))
       = [GET (registryUrl ''foo''), WriteRegistryCache ''foo'',
          WriteDownloads, Prompt, WriteApproval]"
    by code_simp
  ultimately show ?thesis by (rule conjI)
qed

subsection \<open>The registry metadata cache\<close>

text \<open>
  C3.  The claim: the stored record is returned, with no request, whenever it has format
  version 1 and its versions contain the requested version; otherwise the registry is
  requested once and the record returned contains the version.  The test of
  \<^verbatim>\<open>src/lib/index.ts\<close> is \<^verbatim>\<open>cache.versions[version]\<close>, which also finds what the object
  inherits.  The stored record of \<^verbatim>\<open>foo\<close> holds the version 1.0.0 only; asked for the
  version \<^verbatim>\<open>constructor\<close>, \<^verbatim>\<open>cacheRegistry\<close> returns it all the same, without a request, in
  a call of its own as in the loop of \<^verbatim>\<open>processRepo\<close>.  Asked for 0.9.0, which the
  record does not hold either, it requests the registry once and returns and writes a record
  that holds 0.9.0, as the claim says, and asked for 1.0.0 it returns the stored record.
  \<^verbatim>\<open>src/unnamed/part_002\<close>, whose test is \<^verbatim>\<open>cache.versions.includes(version)\<close>, requests the
  registry for \<^verbatim>\<open>constructor\<close>.
\<close>

theorem cache_hit_on_inherited_member:
  "registryFiles demoWorldCached ''foo'' = Content demoRecord
   \<and> \<not> holdsVersion demoRecord ''constructor''
   \<and> fst (cacheRegistry demoEnv ''foo'' ''constructor'' demoWorldCached) = Inr demoRecord
   \<and> events (snd (cacheRegistry demoEnv ''foo'' ''constructor'' demoWorldCached)) = []
   \<and> events (snd (forEachBatch Lib demoEnv rcConfig [] (slices [demoDep\<lparr>version := ''constructor''\<rparr>] 0)
                      freshRun demoWorldCached)) = []
   \<and> \<not> holdsVersion demoRecord ''0.9.0''
   \<and> events (snd (cacheRegistry demoEnv ''foo'' ''0.9.0'' demoWorldCached))
       = [GET (registryUrl ''foo''), WriteRegistryCache ''foo'']
   \<and> holdsVersion (projr (fst (cacheRegistry demoEnv ''foo'' ''0.9.0'' demoWorldCached))) ''0.9.0''
   \<and> (case registryFiles (snd (cacheRegistry demoEnv ''foo'' ''0.9.0'' demoWorldCached)) ''foo'' of
         Content stored \<Rightarrow> holdsVersion stored ''0.9.0''
       | x \<Rightarrow> False)
   \<and> holdsVersion demoRecord ''1.0.0''
   \<and> fst (cacheRegistry demoEnv ''foo'' ''1.0.0'' demoWorldCached) = Inr demoRecord
   \<and> events (snd (cacheRegistry demoEnv ''foo'' ''1.0.0'' demoWorldCached)) = []
   \<and> registryFiles demoWorldCached_p2 ''foo'' = Content demoRecord_p2
   \<and> \<not> holdsVersion_p2 demoRecord_p2 ''constructor''
   \<and> events (snd (cacheRegistry_p2 demoEnv ''foo'' ''constructor'' demoWorldCached_p2))
       = [GET (registryUrl ''foo'')]"
  by code_simp

subsection \<open>The low-usage warning\<close>

lemma types_scriptProblems:
  "list_all (\<lambda>x. type x \<noteq> MinWeeklyDownloads) (scriptProblems E pkg scripts)"
  by (auto simp: scriptProblems_def list_all_iff split: if_splits)

lemma types_licenseProblems:
  "list_all (\<lambda>x. type x \<noteq> MinWeeklyDownloads) (licenseProblems E config pkg l)"
  by (simp add: licenseProblems_def)

lemma type_ageProblem [simp]: "type (ageProblem E pkg v time) = MinPackageAge"
  by (simp add: ageProblem_def)

lemma types_evaluate:
  "list_all (\<lambda>x. type x \<noteq> MinWeeklyDownloads) (evaluate E config n v json)"
  by (simp add: evaluate_def Let_def types_scriptProblems types_licenseProblems
           split: sum.splits)

lemma types_processLocalPackageJson_p2:
  "processLocalPackageJson_p2 E config dep w = Inr ps
     \<Longrightarrow> list_all (\<lambda>x. type x \<noteq> MinWeeklyDownloads) ps"
proof (cases "localPackageJson w (path dep)")
  case (Content json)
  assume r: "processLocalPackageJson_p2 E config dep w = Inr ps"
  show ?thesis
  proof (cases "field json ''scripts''")
    case (Inl e)
    with r Content show ?thesis by (simp add: processLocalPackageJson_p2_def Let_def)
  next
    case (Inr scripts)
    show ?thesis
    proof (cases "field json ''license''")
      case (Inl e)
      with r Content Inr show ?thesis
        by (auto simp: processLocalPackageJson_p2_def Let_def types_scriptProblems
              split: if_splits)
    next
      case l: (Inr l)
      with r Content Inr show ?thesis
        by (auto simp: processLocalPackageJson_p2_def Let_def types_scriptProblems
              types_licenseProblems split: if_splits)
    qed
  qed
qed (auto simp: processLocalPackageJson_p2_def Let_def)

lemma types_problemsOf:
  "list_all (\<lambda>x. type x \<noteq> MinWeeklyDownloads) (problemsOf rv E config dep json)"
  by (simp add: problemsOf_def ageWarning_p2_def types_evaluate
           split: option.splits revision.splits sum.splits)

lemma lowUsageInv_append:
  "lowUsageInv rv E config cache0 D r \<Longrightarrow> list_all (\<lambda>x. type x \<noteq> MinWeeklyDownloads) p
     \<Longrightarrow> lowUsageInv rv E config cache0 D (r\<lparr>warnings := warnings r @ p\<rparr>)"
  by (auto simp: lowUsageInv_def list_all_iff)

lemma cacheKey_problemOf:
  "cacheKey (problemOf rv E config dep n) = lowUsageKey rv E config"
  by (simp add: problemOf_def downloadsProblem_def downloadsProblem_p2_def lowUsageKey_def
           split: revision.splits)

lemma lowUsageInv_noteDownloads:
  assumes "lowUsageInv rv E config cache0 D r"
      and "name dep \<in> D"
      and "\<And>n. downloads = Count n \<Longrightarrow> measured rv E cache0 (name dep) n"
  shows "lowUsageInv rv E config cache0 D (noteDownloads (problemOf rv E) config dep downloads r)"
proof (cases downloads)
  case (Count n)
  with assms(3) have m: "measured rv E cache0 (name dep) n" by simp
  have p: "package (problemOf rv E config dep n) = name dep"
    and t: "message (problemOf rv E config dep n)
              = ''had '' @ toString E n @ '' downloads last week''"
    by (simp_all add: problemOf_def downloadsProblem_def downloadsProblem_p2_def
          split: revision.splits)
  from assms(1,2) m Count show ?thesis
    unfolding lowUsageInv_def noteDownloads_def Let_def store_def
    by (auto simp: p t cacheKey_problemOf)
next
  case Builtin
  with assms(1) show ?thesis
    by (auto simp: lowUsageInv_def noteDownloads_def Let_def store_def)
qed

lemma lowUsageInv_downloadsBegin:
  assumes "lowUsageInv rv E config cache0 D r"
      and "name dep \<in> D"
      and "downloadsBegin rv E config dep r w = (Inr (pc, r'), w')"
  shows "lowUsageInv rv E config cache0 D r'"
proof (cases "enableDownloadCheck config \<and> name dep \<notin> checkedPackageDownloads r
              \<and> truthyCached (cachedDownloads (packageDownloadCache r) (name dep))")
  case True
  then obtain downloads
    where d: "cachedDownloads (packageDownloadCache r) (name dep) = Some downloads"
    by (cases "cachedDownloads (packageDownloadCache r) (name dep)") auto
  with True assms(3) have r': "r' = noteDownloads (problemOf rv E) config dep downloads r"
    by (simp add: downloadsBegin_def)
  have "measured rv E cache0 (name dep) n" if "downloads = Count n" for n
  proof -
    from d that have "packageDownloadCache r (name dep) = Some (Count n)"
      by (auto simp: cachedDownloads_def split: option.splits if_splits)
    with assms(1) show ?thesis by (simp add: lowUsageInv_def)
  qed
  from lowUsageInv_noteDownloads [OF assms(1,2) this] r' show ?thesis by simp
next
  case False
  with assms(3) have "r' = r"
    by (auto simp: downloadsBegin_def split: if_splits option.splits)
  with assms(1) show ?thesis by simp
qed

lemma lowUsageInv_downloadsEnd:
  assumes "lowUsageInv rv E config cache0 D r"
      and "name dep \<in> D"
      and "downloadsEnd rv E config dep r w = (Inr (pc, r'), w')"
  shows "lowUsageInv rv E config cache0 D r'"
proof (cases rv)
  case Lib
  with assms(3) obtain n where n: "downloadsResult E (name dep) = Inr n"
    and r': "r' = noteDownloads (problemOf rv E) config dep (Count n) r"
    by (auto simp: downloadsEnd_def split: sum.splits)
  from n Lib have "measured rv E cache0 (name dep) n" by (simp add: measured_def)
  with lowUsageInv_noteDownloads [OF assms(1,2), of "Count n"] r' show ?thesis by simp
next
  case P2
  with assms(3)
  have r': "r' = noteDownloads (problemOf rv E) config dep
                   (Count (downloadsResult_p2 E (name dep))) r"
    by (auto simp: downloadsEnd_def)
  from P2 have "measured rv E cache0 (name dep) (downloadsResult_p2 E (name dep))"
    by (simp add: measured_def)
  with lowUsageInv_noteDownloads [OF assms(1,2), of "Count (downloadsResult_p2 E (name dep))"] r'
  show ?thesis by simp
qed

lemma lowUsageInv_afterRegistry:
  assumes "lowUsageInv rv E config cache0 D r"
      and "name dep \<in> D"
      and "afterRegistry rv E config dep json r w = (Inr (pc, r'), w')"
  shows "lowUsageInv rv E config cache0 D r'"
  using lowUsageInv_downloadsBegin
          [OF lowUsageInv_append [OF assms(1) types_problemsOf] assms(2)]
        assms(3)
  unfolding afterRegistry_def by blast

lemma lowUsageInv_afterLocalRead:
  assumes "lowUsageInv P2 E config cache0 D r"
      and "name dep \<in> D"
      and "afterLocalRead E config dep r w = (Inr (pc, r'), w')"
  shows "lowUsageInv P2 E config cache0 D r'"
proof -
  from assms(3) obtain js where js: "processLocalPackageJson_p2 E config dep w = Inr js"
    by (cases "processLocalPackageJson_p2 E config dep w") (auto simp: afterLocalRead_def)
  from lowUsageInv_append [OF assms(1) types_processLocalPackageJson_p2 [OF js]]
  have i: "lowUsageInv P2 E config cache0 D (r\<lparr>warnings := warnings r @ js\<rparr>)" .
  show ?thesis
  proof (cases "minPackageAge config \<noteq> 0 \<and> minPackageAge config > 0")
    case True
    with assms(3) js have "r' = r\<lparr>warnings := warnings r @ js\<rparr>"
      by (auto simp: afterLocalRead_def Let_def split: prod.splits)
    with i show ?thesis by simp
  next
    case False
    with assms(3) js
    have "downloadsBegin P2 E config dep (r\<lparr>warnings := warnings r @ js\<rparr>) w = (Inr (pc, r'), w')"
      by (auto simp: afterLocalRead_def Let_def)
    from lowUsageInv_downloadsBegin [OF i assms(2) this] show ?thesis .
  qed
qed

text \<open>
  \<^verbatim>\<open>src/lib\<close> never suspends at the read of the installed \<^verbatim>\<open>package.json\<close>; the state is
  part of the other revision only.
\<close>

lemma lowUsageInv_resume:
  assumes "lowUsageInv rv E config cache0 D r"
      and "name dep \<in> D"
      and "resume rv E config dep pc r w = (Inr (pc', r'), w')"
      and "pc = AtLocalRead \<longrightarrow> rv = P2"
  shows "lowUsageInv rv E config cache0 D r'"
proof (cases pc)
  case AtLocalRead
  with assms show ?thesis by (auto dest: lowUsageInv_afterLocalRead)
next
  case AtRead
  with assms(3) consider "r' = r"
    | j where "afterRegistry rv E config dep j r w = (Inr (pc', r'), w')"
    by (auto split: option.splits)
  then show ?thesis
  proof cases
    case 1
    with assms(1) show ?thesis by simp
  next
    case 2
    from lowUsageInv_afterRegistry [OF assms(1,2) this] show ?thesis .
  qed
next
  case AtFetch
  with assms(3) consider "r' = r"
    | j where "afterRegistry rv E config dep j r w = (Inr (pc', r'), w')"
    by (auto split: sum.splits prod.splits)
  then show ?thesis
  proof cases
    case 1
    with assms(1) show ?thesis by simp
  next
    case 2
    from lowUsageInv_afterRegistry [OF assms(1,2) this] show ?thesis .
  qed
next
  case (AtWrite data disk)
  with assms(3)
  have "afterRegistry rv E config dep (Some data) r (writeCache E (name dep) disk w)
          = (Inr (pc', r'), w')"
    by simp
  from lowUsageInv_afterRegistry [OF assms(1,2) this] show ?thesis .
next
  case AtDownloads
  with assms(3) have "downloadsEnd rv E config dep r w = (Inr (pc', r'), w')" by simp
  from lowUsageInv_downloadsEnd [OF assms(1,2) this] show ?thesis .
next
  case Done
  with assms(1,3) show ?thesis by simp
qed

lemma resume_not_AtLocalRead:
  "resume Lib E config dep pc r w = (Inr (pc', r'), w') \<Longrightarrow> pc \<noteq> AtLocalRead
     \<Longrightarrow> pc' \<noteq> AtLocalRead"
  by (cases pc)
     (auto simp: afterRegistry_def downloadsBegin_def downloadsEnd_def
           split: option.splits sum.splits prod.splits if_splits)

text \<open>Callbacks that are \<^emph>\<open>proper\<close>: of a dependency in \<open>D\<close>, and in a state of their revision.\<close>

lemma runBatch_invariant:
  "runBatch rv E config sched tasks r w = ((Inr r', w'), sched')
     \<Longrightarrow> lowUsageInv rv E config cache0 D r
     \<Longrightarrow> \<forall>t \<in> set tasks. name (fst t) \<in> D \<and> (snd t = AtLocalRead \<longrightarrow> rv = P2)
     \<Longrightarrow> lowUsageInv rv E config cache0 D r'"
proof (induction rv E config sched tasks r w rule: runBatch.induct)
  case (1 rv E config sched tasks r w)
  show ?case
  proof (cases "pending tasks = []")
    case True
    with "1.prems"(1,2) show ?thesis by (simp add: runBatch.simps)
  next
    case False
    define i where "i = pick sched (pending tasks)"
    have "i \<in> set (pending tasks)"
      using False unfolding i_def by (cases sched) (simp_all add: pick_def)
    then have il: "i < length tasks" by (simp add: pending_def)
    then have ti: "tasks ! i \<in> set tasks" by simp
    obtain res w1 where res: "resume rv E config (fst (tasks ! i)) (snd (tasks ! i)) r w = (res, w1)"
      by (cases "resume rv E config (fst (tasks ! i)) (snd (tasks ! i)) r w")
    from "1.prems"(1) False res obtain pc r1 where ok: "res = Inr (pc, r1)"
      and rec: "runBatch rv E config (tl sched) (tasks[i := (fst (tasks ! i), pc)]) r1 w1
                  = ((Inr r', w'), sched')"
      by (cases res) (auto simp: runBatch.simps [of rv E config sched tasks] i_def Let_def)
    from "1.prems"(3) ti
    have d: "name (fst (tasks ! i)) \<in> D" and a: "snd (tasks ! i) = AtLocalRead \<longrightarrow> rv = P2"
      by auto
    from res ok
    have step: "resume rv E config (fst (tasks ! i)) (snd (tasks ! i)) r w = (Inr (pc, r1), w1)"
      by simp
    from lowUsageInv_resume [OF "1.prems"(2) d step a]
    have inv: "lowUsageInv rv E config cache0 D r1" .
    have pcok: "pc = AtLocalRead \<longrightarrow> rv = P2"
    proof (cases rv)
      case Lib
      with a have "snd (tasks ! i) \<noteq> AtLocalRead" by simp
      with step Lib have "pc \<noteq> AtLocalRead" by (auto dest: resume_not_AtLocalRead)
      then show ?thesis by simp
    next
      case P2
      then show ?thesis by simp
    qed
    have tasks': "\<forall>t \<in> set (tasks[i := (fst (tasks ! i), pc)]).
                    name (fst t) \<in> D \<and> (snd t = AtLocalRead \<longrightarrow> rv = P2)"
    proof
      fix t assume "t \<in> set (tasks[i := (fst (tasks ! i), pc)])"
      then have "t \<in> insert (fst (tasks ! i), pc) (set tasks)"
        using set_update_subset_insert by fastforce
      with "1.prems"(3) d pcok
      show "name (fst t) \<in> D \<and> (snd t = AtLocalRead \<longrightarrow> rv = P2)" by auto
    qed
    from "1.IH" [OF False i_def res [symmetric] ok refl rec inv tasks'] show ?thesis .
  qed
qed

lemma startBatch_tasks:
  "startBatch rv slice w = (tasks, w1)
     \<Longrightarrow> map fst tasks = slice \<and> (\<forall>t \<in> set tasks. snd t = AtLocalRead \<longrightarrow> rv = P2)"
proof (induction slice arbitrary: tasks w w1)
  case Nil
  then show ?case by simp
next
  case (Cons dep deps)
  obtain pc w0 where b: "begin_callback rv dep w = (pc, w0)"
    by (cases "begin_callback rv dep w")
  obtain ts w2 where s: "startBatch rv deps w0 = (ts, w2)"
    by (cases "startBatch rv deps w0")
  from Cons.prems b s have t: "tasks = (dep, pc) # ts" by simp
  from b have "pc = AtLocalRead \<longrightarrow> rv = P2"
    by (auto simp: begin_callback_def registryBegin_def split: revision.splits if_splits)
  with Cons.IH [OF s] t show ?case by simp
qed

lemma forEachBatch_invariant:
  "forEachBatch rv E config sched bs r w = (Inr r', w')
     \<Longrightarrow> lowUsageInv rv E config cache0 D r
     \<Longrightarrow> \<forall>dep \<in> set (concat bs). name dep \<in> D
     \<Longrightarrow> lowUsageInv rv E config cache0 D r'"
proof (induction bs arbitrary: sched r w)
  case Nil
  then show ?case by simp
next
  case (Cons slice rest)
  obtain tasks w0 where st: "startBatch rv slice w = (tasks, w0)"
    by (cases "startBatch rv slice w")
  obtain res w1 sched1 where rb: "runBatch rv E config sched tasks r w0 = ((res, w1), sched1)"
    by (cases "runBatch rv E config sched tasks r w0") auto
  from Cons.prems(1) st rb obtain r1 where ok: "res = Inr r1"
    and rec: "forEachBatch rv E config sched1 rest r1 w1 = (Inr r', w')"
    by (cases res) auto
  from startBatch_tasks [OF st] Cons.prems(3)
  have "\<forall>t \<in> set tasks. name (fst t) \<in> D \<and> (snd t = AtLocalRead \<longrightarrow> rv = P2)"
    by (metis (no_types, lifting) concat.simps(2) in_set_conv_nth length_map nth_map nth_mem set_append UnCI)
  from runBatch_invariant [OF rb [unfolded ok] Cons.prems(2) this]
  have "lowUsageInv rv E config cache0 D r1" .
  moreover from Cons.prems(3) have "\<forall>dep \<in> set (concat rest). name dep \<in> D" by simp
  ultimately show ?case using Cons.IH [OF rec] by blast
qed


text \<open>
  C5, as the code has it.  Whatever the order in which the callbacks of a batch are
  resumed, every warning of kind \<^verbatim>\<open>minWeeklyDownloads\<close> that the loop has collected belongs
  to a dependency of the loop, tells a count \<open>n\<close> measured for its name that is not \<open>-1\<close> and
  is below the threshold, and has a \<^verbatim>\<open>cacheKey\<close> made of the threshold alone, never of \<open>n\<close>:
  the decimal string of the threshold in \<^verbatim>\<open>src/lib/index.ts\<close>, and \<^verbatim>\<open>minWeeklyDownloads=\<close>
  followed by it in \<^verbatim>\<open>src/unnamed/part_002\<close>.
\<close>

theorem low_usage_warning_key:
  assumes "forEachBatch rv E config sched bs r0 w = (Inr r, w')"
      and "warnings r0 = []"
      and "x \<in> set (warnings r)"
      and "type x = MinWeeklyDownloads"
  shows "cacheKey x
           = (case rv of
                Lib \<Rightarrow> JStr (toString E (minWeeklyDownloads config))
              | P2 \<Rightarrow> JStr (''minWeeklyDownloads='' @ toString E (minWeeklyDownloads config)))
       \<and> package x \<in> name ` set (concat bs)
       \<and> (\<exists>n. measured rv E (packageDownloadCache r0) (package x) n
                \<and> n \<noteq> - 1 \<and> n < minWeeklyDownloads config
                \<and> message x = ''had '' @ toString E n @ '' downloads last week'')"
proof -
  have "lowUsageInv rv E config (packageDownloadCache r0) (name ` set (concat bs)) r0"
    using assms(2) by (simp add: lowUsageInv_def measured_def)
  from forEachBatch_invariant [OF assms(1) this]
  have "lowUsageInv rv E config (packageDownloadCache r0) (name ` set (concat bs)) r"
    by blast
  with assms(3,4) show ?thesis
    unfolding lowUsageInv_def lowUsageKey_def by blast
qed

text \<open>
  C5 as stated fails on \<^verbatim>\<open>src/lib/index.ts\<close>: with the threshold 100 and 42 downloads the
  key is \<^verbatim>\<open>100\<close>, not \<^verbatim>\<open>minWeeklyDownloads=100\<close>.
\<close>

theorem low_usage_key_is_bare_threshold:
  "map type (warnings (projr (fst
       (forEachBatch Lib demoEnv demoConfig [] (slices [demoDep] 0) freshRun demoWorld))))
     = [MinPackageAge, Script, License, MinWeeklyDownloads]
   \<and> map cacheKey (warnings (projr (fst
       (forEachBatch Lib demoEnv demoConfig [] (slices [demoDep] 0) freshRun demoWorld))))
     = [JStr ''1.0.0'', JStr ''postinstall: node x.js'', JStr ''MIT'', JStr ''100'']
   \<and> cacheKey (last (warnings (projr (fst
       (forEachBatch Lib demoEnv demoConfig [] (slices [demoDep] 0) freshRun demoWorld)))))
     \<noteq> JStr (''minWeeklyDownloads='' @ toString demoEnv (minWeeklyDownloads demoConfig))"
  by code_simp

text \<open>
  Two versions of \<^verbatim>\<open>foo\<close> in one batch, resumed in turns: both callbacks find the name
  unchecked, both ask for the downloads, and both push the warning.
\<close>

theorem low_usage_warning_key_witness:
  "map type (warnings (projr (fst
       (forEachBatch Lib demoEnv demoConfig [0, 1, 0, 1, 0, 1]
          (slices [demoDep, demoDep\<lparr>version := ''0.9.0''\<rparr>] 0) freshRun demoWorld))))
     = [MinPackageAge, Script, License, MinWeeklyDownloads, MinWeeklyDownloads]
   \<and> events (snd
       (forEachBatch Lib demoEnv demoConfig [0, 1, 0, 1, 0, 1]
          (slices [demoDep, demoDep\<lparr>version := ''0.9.0''\<rparr>] 0) freshRun demoWorld))
     = [GET (registryUrl ''foo''), GET (registryUrl ''foo''),
        WriteRegistryCache ''foo'', GET (downloadsUrl ''foo''),
        WriteRegistryCache ''foo'', GET (downloadsUrl ''foo'')]
   \<and> cacheKey (last (warnings (projr (fst
       (forEachBatch Lib demoEnv demoConfig [0, 1, 0, 1, 0, 1]
          (slices [demoDep, demoDep\<lparr>version := ''0.9.0''\<rparr>] 0) freshRun demoWorld)))))
     = JStr ''100''
   \<and> map type (warnings (projr (fst
       (forEachBatch P2 demoEnv demoConfig [] (slices [demoDep] 0) freshRun demoWorld))))
     = [MinPackageAge, MinWeeklyDownloads]
   \<and> cacheKey (last (warnings (projr (fst
       (forEachBatch P2 demoEnv demoConfig [] (slices [demoDep] 0) freshRun demoWorld)))))
     = JStr ''minWeeklyDownloads=100''"
proof -
  let ?X = "forEachBatch Lib demoEnv demoConfig [0, 1, 0, 1, 0, 1]
              (slices [demoDep, demoDep\<lparr>version := ''0.9.0''\<rparr>] 0) freshRun demoWorld"
  let ?Y = "forEachBatch P2 demoEnv demoConfig [] (slices [demoDep] 0) freshRun demoWorld"
  have f: "warnings freshRun = []" by (simp add: freshRun_def)
  have tx: "map type (warnings (projr (fst ?X)))
              = [MinPackageAge, Script, License, MinWeeklyDownloads, MinWeeklyDownloads]"
    by code_simp
  have ty: "map type (warnings (projr (fst ?Y))) = [MinPackageAge, MinWeeklyDownloads]"
    by code_simp
  have ev: "events (snd ?X)
     = [GET (registryUrl ''foo''), GET (registryUrl ''foo''),
        WriteRegistryCache ''foo'', GET (downloadsUrl ''foo''),
        WriteRegistryCache ''foo'', GET (downloadsUrl ''foo'')]"
    by code_simp
  have "\<not> isl (fst ?X)" by code_simp
  then have ex: "?X = (Inr (projr (fst ?X)), snd ?X)" by (simp add: prod_eq_iff)
  have "\<not> isl (fst ?Y)" by code_simp
  then have ey: "?Y = (Inr (projr (fst ?Y)), snd ?Y)" by (simp add: prod_eq_iff)
  have nx: "warnings (projr (fst ?X)) \<noteq> []" and ny: "warnings (projr (fst ?Y)) \<noteq> []"
    using tx ty by auto
  have lx: "type (last (warnings (projr (fst ?X)))) = MinWeeklyDownloads"
    using tx nx by (simp add: last_map [symmetric])
  have ly: "type (last (warnings (projr (fst ?Y)))) = MinWeeklyDownloads"
    using ty ny by (simp add: last_map [symmetric])
  have t: "toString demoEnv (minWeeklyDownloads demoConfig) = ''100''" by code_simp
  from low_usage_warning_key [OF ex f last_in_set [OF nx] lx]
  have kx: "cacheKey (last (warnings (projr (fst ?X)))) = JStr ''100''"
    by (simp add: t)
  from low_usage_warning_key [OF ey f last_in_set [OF ny] ly]
  have ky: "cacheKey (last (warnings (projr (fst ?Y)))) = JStr ''minWeeklyDownloads=100''"
    by (simp add: t)
  from tx ty ev kx ky show ?thesis by blast
qed

subsection \<open>The downloads lookup\<close>

text \<open>
  In \<^verbatim>\<open>src/unnamed/part_003\<close> every failure of the lookup is the value \<open>-1\<close>; in
  \<^verbatim>\<open>src/lib/package-downloads.ts\<close> a request without response, a body that is not JSON
  and a body without a numeric \<^verbatim>\<open>downloads\<close> are throws.
\<close>

lemma checkPackageDownloads_p2_sentinel:
  assumes "http E (downloadsUrl nm) = NoResponse
         \<or> (\<exists>s t b. http E (downloadsUrl nm) = Response s t b \<and> \<not> ok s)
         \<or> (\<exists>s t. http E (downloadsUrl nm) = Response s t None)
         \<or> (\<exists>s t j. http E (downloadsUrl nm) = Response s t (Some j)
                 \<and> (\<forall>n. field j ''downloads'' \<noteq> Inr (JNum n)))"
  shows "fst (checkPackageDownloads_p2 E nm w) = - 1"
  using assms
  by (auto simp: checkPackageDownloads_p2_def downloadsResult_p2_def fetchJsonResult_def
           split: response.splits option.splits sum.splits json.splits)

lemma checkPackageDownloads_throws:
  assumes "http E (downloadsUrl nm) = NoResponse
         \<or> (\<exists>s t. http E (downloadsUrl nm) = Response s t None)
         \<or> (\<exists>s t j. http E (downloadsUrl nm) = Response s t (Some j)
                 \<and> (\<forall>n. field j ''downloads'' \<noteq> Inr (JNum n)))"
  shows "\<exists>e. fst (checkPackageDownloads E nm w) = Inl e"
  using assms
  by (auto simp: checkPackageDownloads_def downloadsResult_def
           split: response.splits option.splits sum.splits json.splits)

text \<open>With the value \<open>-1\<close> the name is marked as checked and nothing else changes.\<close>

lemma noteDownloads_sentinel:
  "noteDownloads problem config dep (Count (- 1)) r
     = r\<lparr>checkedPackageDownloads := insert (name dep) (checkedPackageDownloads r)\<rparr>"
  by (simp add: noteDownloads_def)

text \<open>
  A throw of the lookup is the throw of the callback of \<^verbatim>\<open>src/lib/index.ts\<close>.
\<close>

lemma downloadCheck_throws:
  "enableDownloadCheck config \<Longrightarrow> name dep \<notin> checkedPackageDownloads r
     \<Longrightarrow> \<not> truthyCached (cachedDownloads (packageDownloadCache r) (name dep))
     \<Longrightarrow> fst (checkPackageDownloads E (name dep) w) = Inl e
     \<Longrightarrow> fst (downloadCheck E config dep r w) = Inl e"
  by (auto simp: downloadCheck_def lookupDownloads_def
           split: prod.splits sum.splits option.splits)

text \<open>
  C6.  The claim: when the popularity fetch fails, \<^verbatim>\<open>checkPackageDownloads\<close> returns \<open>-1\<close>
  rather than throwing, no low-usage warning is emitted and the cache gets no entry.
  \<^verbatim>\<open>checkPackageDownloads\<close> of \<^verbatim>\<open>src/lib/package-downloads.ts\<close> throws on a request without
  response and on a response without a numeric \<^verbatim>\<open>downloads\<close>, and \<^verbatim>\<open>processRepo\<close> of
  \<^verbatim>\<open>src/lib/index.ts\<close>, which compares the result with \<open>-1\<close>, ends with that throw.  The
  revision in \<^verbatim>\<open>src/unnamed/part_003\<close> returns \<open>-1\<close> on the same inputs and the run goes on.
\<close>

theorem downloads_failure_throws:
  "fst (checkPackageDownloads demoEnvDown ''foo'' demoWorld) = Inl NetworkError
   \<and> fst (checkPackageDownloads demoEnvBad ''foo'' demoWorld)
       = Inl (Error ''Bad response: no `downloads` field'')
   \<and> fst (processRepo demoEnvDown demoConfig demoWorld) = Threw NetworkError
   \<and> fst (processRepo demoEnvBad demoConfig demoWorld)
       = Threw (Error ''Bad response: no `downloads` field'')
   \<and> fst (checkPackageDownloads_p2 demoEnvDown ''foo'' demoWorld) = - 1
   \<and> fst (checkPackageDownloads_p2 demoEnvBad ''foo'' demoWorld) = - 1
   \<and> fst (processRepo_p2 demoEnvDown demoConfig demoWorld) = Returned"
  by code_simp

end
